theory Spec2Isabelle
  imports Main
begin

section \<open>BatchCreator (haystack/preview/components/batch/batch\_creator.py)\<close>

text \<open>
  The component keeps two attributes that \<open>run\<close> reads: \<open>max_batch_size\<close>, an
  \<open>Optional[int]\<close> (Python's unbounded integer, or \<open>None\<close>), and the list \<open>batch\<close>.
  \<open>expected_type\<close> only feeds the framework's type declarations and is the type
  parameter \<open>'a\<close> here.
\<close>

record 'a BatchCreator =
  max_batch_size :: "int option"
  batch :: "'a list"

definition BatchCreator_init :: "int option \<Rightarrow> 'a BatchCreator" where
  "BatchCreator_init mbs = \<lparr>max_batch_size = mbs, batch = []\<rparr>"

text \<open>
  \<open>run\<close> appends the item, then either returns the empty dictionary (\<open>None\<close> here)
  and keeps the buffer, or returns \<open>{"batch": self.batch}\<close> (\<open>Some\<close> of the list) and
  rebinds \<open>self.batch\<close> to a fresh empty list. The guard is the source's:
  \<open>not release_batch and (self.max_batch_size is not None and len(self.batch) < self.max_batch_size)\<close>.
\<close>

definition run :: "'a BatchCreator \<Rightarrow> 'a \<Rightarrow> bool \<Rightarrow> 'a list option \<times> 'a BatchCreator" where
  "run self item release_batch =
     (let appended = batch self @ [item] in
      if \<not> release_batch \<and>
         (case max_batch_size self of
            None \<Rightarrow> False
          | Some m \<Rightarrow> int (length appended) < m)
      then (None, self\<lparr>batch := appended\<rparr>)
      else (Some appended, self\<lparr>batch := []\<rparr>))"

text \<open>A sequence of \<open>run\<close> calls on one component: the outputs in call order and the final state.\<close>

fun run_seq :: "'a BatchCreator \<Rightarrow> ('a \<times> bool) list \<Rightarrow> 'a list option list \<times> 'a BatchCreator" where
  "run_seq self [] = ([], self)"
| "run_seq self ((item, release_batch) # calls) =
     (case run self item release_batch of
        (out, self') \<Rightarrow>
          (case run_seq self' calls of
             (outs, self'') \<Rightarrow> (out # outs, self'')))"

text \<open>The batches among a list of outputs, in order.\<close>

fun released :: "'a list option list \<Rightarrow> 'a list list" where
  "released [] = []"
| "released (None # outs) = released outs"
| "released (Some b # outs) = b # released outs"

definition unforced :: "'a list \<Rightarrow> ('a \<times> bool) list" where
  "unforced items = map (\<lambda>x. (x, False)) items"

section \<open>Prompt truncation (haystack/preview/components/generators/\_helpers.py)\<close>

text \<open>
  The tokenizer is an argument of \<open>enforce_token_limit\<close>: any object with \<open>encode\<close> and
  \<open>decode\<close>. Tokens are of an arbitrary type \<open>'t\<close>. Strings are \<open>char list\<close>; the model
  reads a \<open>char\<close> as one character of a Python \<open>str\<close> (code points below 256).
\<close>

record 't tokenizer =
  encode :: "string \<Rightarrow> 't list"
  decode :: "'t list \<Rightarrow> string"

text \<open>
  Python's \<open>xs[:n]\<close>: the first \<open>n\<close> elements for \<open>n \<ge> 0\<close>, all but the last \<open>-n\<close>
  elements for \<open>n < 0\<close>.
\<close>

definition py_slice_to :: "'a list \<Rightarrow> int \<Rightarrow> 'a list" where
  "py_slice_to xs n =
     (if 0 \<le> n then take (nat n) xs else take (nat (int (length xs) + n)) xs)"

text \<open>The record handed to \<open>logger.warning\<close>: the two \<open>%s\<close> arguments.\<close>

datatype truncation_warning = PromptTruncated nat int

definition enforce_token_limit ::
  "string \<Rightarrow> 't tokenizer \<Rightarrow> int \<Rightarrow> string \<times> truncation_warning list" where
  "enforce_token_limit prompt tok max_tokens_limit =
     (let tokens = encode tok prompt;
          tokens_count = length tokens
      in if int tokens_count > max_tokens_limit
         then (let tokenized_payload = encode tok prompt
               in (decode tok (py_slice_to tokenized_payload max_tokens_limit),
                   [PromptTruncated tokens_count max_tokens_limit]))
         else (prompt, []))"

text \<open>
  Two small tokenizers to run the function on. The first has one token per character. The
  second also appends an end-of-sequence token (\<open>None\<close>) when encoding and skips it when
  decoding, as tokenizers that add special tokens do.
\<close>

definition char_tokenizer :: "char tokenizer" where
  "char_tokenizer = \<lparr>encode = (\<lambda>s. s), decode = (\<lambda>ts. ts)\<rparr>"

definition eos_tokenizer :: "char option tokenizer" where
  "eos_tokenizer =
     \<lparr>encode = (\<lambda>s. map Some s @ [None]),
      decode = (\<lambda>ts. concat (map (\<lambda>t. case t of None \<Rightarrow> [] | Some c \<Rightarrow> [c]) ts))\<rparr>"

section \<open>OpenAI helpers (haystack/preview/components/generators/openai/\_helpers.py)\<close>

subsection \<open>Values and exceptions\<close>

text \<open>
  What \<open>json.loads\<close> returns. A dictionary is an association list read with \<open>map_of\<close>.
  Numbers are integers in the model.
\<close>

datatype json =
    JNull
  | JBool bool
  | JNum int
  | JStr string
  | JArr "json list"
  | JObj "(string \<times> json) list"

text \<open>
  The exceptions the helpers can let through. The three OpenAI classes come from
  \<open>openai/errors.py\<close>; \<open>OpenAIRateLimitError\<close> and \<open>OpenAIUnauthorizedError\<close> are
  subclasses of \<open>OpenAIError\<close> and are built from the message alone, \<open>OpenAIError\<close> from the
  message and \<open>status_code\<close>. \<open>OtherException\<close> stands for any exception of another
  library or of the callback.
\<close>

datatype exn =
    OpenAIError string "int option"
  | OpenAIRateLimitError string
  | OpenAIUnauthorizedError string
  | JSONDecodeError
  | KeyError json
  | TypeError
  | IndexError
  | AttributeError
  | OtherException string

fun isinstance_OpenAIError :: "exn \<Rightarrow> bool" where
  "isinstance_OpenAIError (OpenAIError _ _) = True"
| "isinstance_OpenAIError (OpenAIRateLimitError _) = True"
| "isinstance_OpenAIError (OpenAIUnauthorizedError _) = True"
| "isinstance_OpenAIError _ = False"

fun isinstance_OpenAIUnauthorizedError :: "exn \<Rightarrow> bool" where
  "isinstance_OpenAIUnauthorizedError (OpenAIUnauthorizedError _) = True"
| "isinstance_OpenAIUnauthorizedError _ = False"

fun error_message :: "exn \<Rightarrow> string" where
  "error_message (OpenAIError m _) = m"
| "error_message (OpenAIRateLimitError m) = m"
| "error_message (OpenAIUnauthorizedError m) = m"
| "error_message _ = []"

text \<open>
  Modelled from the spec: \<open>openai/errors.py\<close> is not among the sources, so the status code
  that a rate-limit or an unauthorized error carries is taken from the spec's words
  ("each carrying status code and raw body text"): 429 and 401, the only statuses they are
  raised for. For \<open>OpenAIError\<close> it is the \<open>status_code\<close> argument that
  \<open>raise_for_status\<close> passes.
\<close>

fun carried_status :: "exn \<Rightarrow> int option" where
  "carried_status (OpenAIError _ sc) = sc"
| "carried_status (OpenAIRateLimitError _) = Some 429"
| "carried_status (OpenAIUnauthorizedError _) = Some 401"
| "carried_status _ = None"

datatype error_class = RateLimited | Unauthorized | GenericProviderError

fun classify :: "exn \<Rightarrow> error_class option" where
  "classify (OpenAIError _ _) = Some GenericProviderError"
| "classify (OpenAIRateLimitError _) = Some RateLimited"
| "classify (OpenAIUnauthorizedError _) = Some Unauthorized"
| "classify _ = None"

definition ends_with :: "string \<Rightarrow> string \<Rightarrow> bool" where
  "ends_with s t = (length t \<le> length s \<and> drop (length s - length t) s = t)"

subsection \<open>Decimal rendering of an integer in an f-string\<close>

definition digit_char :: "nat \<Rightarrow> char" where
  "digit_char d = ''0123456789'' ! d"

fun str_nat :: "nat \<Rightarrow> string" where
  "str_nat n = (if n < 10 then [digit_char n] else str_nat (n div 10) @ [digit_char (n mod 10)])"

declare str_nat.simps [simp del]

definition str_int :: "int \<Rightarrow> string" where
  "str_int i = (if i < 0 then CHR ''-'' # str_nat (nat (- i)) else str_nat (nat i))"

subsection \<open>raise\_for\_status\<close>

record response =
  status_code :: int
  resp_text :: string
  sse_events :: "(exn + string) list"

text \<open>
  \<open>sse_events\<close> is what \<open>sseclient.SSEClient(response).events()\<close> yields for this
  response: the \<open>data\<close> of each event in arrival order, or an exception that ends the
  iteration.
\<close>

definition raise_for_status :: "response \<Rightarrow> exn + unit" where
  "raise_for_status response =
     (if status_code response \<ge> 400 then
        (if status_code response = 429 then
           Inl (OpenAIRateLimitError (''API rate limit exceeded: '' @ resp_text response))
         else if status_code response = 401 then
           Inl (OpenAIUnauthorizedError (''API key is invalid: '' @ resp_text response))
         else
           Inl (OpenAIError
                  (''OpenAI returned an error.'' @ [CHR 0x0A] @
                   ''Status code: '' @ str_int (status_code response) @ [CHR 0x0A] @
                   ''Response body: '' @ resp_text response)
                  (Some (status_code response))))
      else Inr ())"

subsection \<open>Python's operations on decoded JSON\<close>

text \<open>
  \<open>obj[key]\<close> with a string key: a dictionary is looked up (\<open>KeyError\<close> when the key is
  absent); a list or a string wants an integer index and every other value is not
  subscriptable, both a \<open>TypeError\<close>.
\<close>

fun subscript_key :: "json \<Rightarrow> string \<Rightarrow> exn + json" where
  "subscript_key (JObj kvs) key =
     (case map_of kvs key of None \<Rightarrow> Inl (KeyError (JStr key)) | Some v \<Rightarrow> Inr v)"
| "subscript_key _ key = Inl TypeError"

text \<open>
  \<open>obj[0]\<close>: the first element of a list or the first character of a string
  (\<open>IndexError\<close> when empty); on a dictionary the key \<open>0\<close>, which no decoded JSON object
  has.
\<close>

fun subscript_0 :: "json \<Rightarrow> exn + json" where
  "subscript_0 (JArr []) = Inl IndexError"
| "subscript_0 (JArr (x # xs)) = Inr x"
| "subscript_0 (JStr []) = Inl IndexError"
| "subscript_0 (JStr (c # cs)) = Inr (JStr [c])"
| "subscript_0 (JObj kvs) = Inl (KeyError (JNum 0))"
| "subscript_0 _ = Inl TypeError"

primrec contains_str :: "string \<Rightarrow> string \<Rightarrow> bool" where
  "contains_str [] key = (key = [])"
| "contains_str (c # cs) key = (take (length key) (c # cs) = key \<or> contains_str cs key)"

text \<open>
  \<open>key in obj\<close> for a string key: key membership for a dictionary, element membership
  for a list, substring test for a string, \<open>TypeError\<close> for a value that is not iterable.
\<close>

fun py_in :: "string \<Rightarrow> json \<Rightarrow> exn + bool" where
  "py_in key (JObj kvs) = Inr (map_of kvs key \<noteq> None)"
| "py_in key (JArr xs) = Inr (JStr key \<in> set xs)"
| "py_in key (JStr s) = Inr (contains_str s key)"
| "py_in key _ = Inl TypeError"

text \<open>The truth value of a decoded JSON value in \<open>if token:\<close>.\<close>

fun truthy :: "json \<Rightarrow> bool" where
  "truthy JNull = False"
| "truthy (JBool b) = b"
| "truthy (JNum i) = (i \<noteq> 0)"
| "truthy (JStr s) = (s \<noteq> [])"
| "truthy (JArr xs) = (xs \<noteq> [])"
| "truthy (JObj kvs) = (kvs \<noteq> [])"

text \<open>
  What \<open>for x in obj\<close> visits: the elements of a list, the keys of a dictionary, the
  characters of a string; any other value is not iterable.
\<close>

fun py_iter :: "json \<Rightarrow> exn + json list" where
  "py_iter (JArr xs) = Inr xs"
| "py_iter (JObj kvs) = Inr (map (\<lambda>kv. JStr (fst kv)) kvs)"
| "py_iter (JStr s) = Inr (map (\<lambda>c. JStr [c]) s)"
| "py_iter _ = Inl TypeError"

text \<open>
  \<open>str.strip()\<close> removes leading and trailing whitespace; below 256 the characters for
  which \<open>str.isspace\<close> holds are the ones listed.
\<close>

definition py_isspace :: "char \<Rightarrow> bool" where
  "py_isspace c = (of_char c \<in> {9, 10, 11, 12, 13, 28, 29, 30, 31, 32, 133, 160 :: nat})"

definition py_strip :: "string \<Rightarrow> string" where
  "py_strip s = rev (dropWhile py_isspace (rev (dropWhile py_isspace s)))"

subsection \<open>check\_truncated\_answers and check\_filtered\_answers\<close>

text \<open>
  \<open>sum(1 for ans in result["choices"] if ans["finish_reason"] == reason)\<close>, stopping at
  the first \<open>ans\<close> whose subscript raises.
\<close>

fun count_finish_reason :: "string \<Rightarrow> json list \<Rightarrow> exn + nat" where
  "count_finish_reason reason [] = Inr 0"
| "count_finish_reason reason (ans # rest) =
     (case subscript_key ans ''finish_reason'' of
        Inl e \<Rightarrow> Inl e
      | Inr fr \<Rightarrow>
          (case count_finish_reason reason rest of
             Inl e \<Rightarrow> Inl e
           | Inr n \<Rightarrow> Inr ((if fr = JStr reason then 1 else 0) + n)))"

text \<open>
  A logged warning holds the two \<open>%s\<close> arguments: the count and \<open>payload["n"]\<close>.
\<close>

datatype answer_warning = Truncated nat json | Filtered nat json

type_synonym payload = "(string \<times> json) list"

definition check_truncated_answers :: "json \<Rightarrow> payload \<Rightarrow> exn + answer_warning list" where
  "check_truncated_answers result payload =
     (case subscript_key result ''choices'' of
        Inl e \<Rightarrow> Inl e
      | Inr choices \<Rightarrow>
          (case py_iter choices of
             Inl e \<Rightarrow> Inl e
           | Inr anss \<Rightarrow>
               (case count_finish_reason ''length'' anss of
                  Inl e \<Rightarrow> Inl e
                | Inr truncated_completions \<Rightarrow>
                    if truncated_completions > 0 then
                      (case subscript_key (JObj payload) ''n'' of
                         Inl e \<Rightarrow> Inl e
                       | Inr n \<Rightarrow> Inr [Truncated truncated_completions n])
                    else Inr [])))"

definition check_filtered_answers :: "json \<Rightarrow> payload \<Rightarrow> exn + answer_warning list" where
  "check_filtered_answers result payload =
     (case subscript_key result ''choices'' of
        Inl e \<Rightarrow> Inl e
      | Inr choices \<Rightarrow>
          (case py_iter choices of
             Inl e \<Rightarrow> Inl e
           | Inr anss \<Rightarrow>
               (case count_finish_reason ''content_filter'' anss of
                  Inl e \<Rightarrow> Inl e
                | Inr filtered_completions \<Rightarrow>
                    if filtered_completions > 0 then
                      (case subscript_key (JObj payload) ''n'' of
                         Inl e \<Rightarrow> Inl e
                       | Inr n \<Rightarrow> Inr [Filtered filtered_completions n])
                    else Inr [])))"

subsection \<open>The world the two queries act on\<close>

text \<open>
  The effects of one call are made explicit in a state: \<open>server\<close> gives the outcome of
  the \<open>i\<close>-th \<open>requests.post\<close> (a response, or the exception the HTTP library raises),
  \<open>posts\<close> counts the requests sent, \<open>logged\<close> is what went to \<open>logger.warning\<close>,
  \<open>cb_state\<close> is the state the streaming callback owns, \<open>cb_calls\<close> records every
  callback invocation (token, \<open>event_data\<close> keyword argument, outcome) in order, and
  \<open>clients_opened\<close>, \<open>clients_closed\<close> count \<open>SSEClient(...)\<close> and \<open>client.close()\<close>.
\<close>

record 'c world =
  server :: "nat \<Rightarrow> exn + response"
  posts :: nat
  logged :: "answer_warning list"
  cb_state :: 'c
  cb_calls :: "(json \<times> json \<times> (exn + string)) list"
  clients_opened :: nat
  clients_closed :: nat

definition requests_post :: "'c world \<Rightarrow> (exn + response) \<times> 'c world" where
  "requests_post w = (server w (posts w), w\<lparr>posts := posts w + 1\<rparr>)"

text \<open>\<open>json.loads\<close> is a parameter: \<open>None\<close> is its \<open>JSONDecodeError\<close>.\<close>

type_synonym json_loads = "string \<Rightarrow> json option"

subsection \<open>query\_chat\_model\<close>

text \<open>
  \<open>[choice["message"]["content"].strip() for choice in choices]\<close>, in three parts: the
  two subscripts, the method call (a value that is not a string has no \<open>strip\<close>
  attribute), and the comprehension, which stops at the first choice that raises.
\<close>

definition message_content :: "json \<Rightarrow> exn + json" where
  "message_content choice =
     (case subscript_key choice ''message'' of
        Inl e \<Rightarrow> Inl e
      | Inr message \<Rightarrow> subscript_key message ''content'')"

fun strip_method :: "json \<Rightarrow> exn + string" where
  "strip_method (JStr s) = Inr (py_strip s)"
| "strip_method _ = Inl AttributeError"

fun choice_contents :: "json list \<Rightarrow> exn + string list" where
  "choice_contents [] = Inr []"
| "choice_contents (choice # rest) =
     (case message_content choice of
        Inl e \<Rightarrow> Inl e
      | Inr content \<Rightarrow>
          (case strip_method content of
             Inl e \<Rightarrow> Inl e
           | Inr reply \<Rightarrow>
               (case choice_contents rest of
                  Inl e \<Rightarrow> Inl e
                | Inr replies \<Rightarrow> Inr (reply # replies))))"

text \<open>The body of \<open>query_chat_model\<close>, one attempt of the retried function.\<close>

definition query_chat_model_attempt ::
  "json_loads \<Rightarrow> payload \<Rightarrow> 'c world \<Rightarrow> (exn + string list) \<times> 'c world" where
  "query_chat_model_attempt loads payload w =
     (case requests_post w of
        (Inl e, w1) \<Rightarrow> (Inl e, w1)
      | (Inr response, w1) \<Rightarrow>
     (case raise_for_status response of
        Inl e \<Rightarrow> (Inl e, w1)
      | Inr _ \<Rightarrow>
     (case loads (resp_text response) of
        None \<Rightarrow> (Inl JSONDecodeError, w1)
      | Some json_response \<Rightarrow>
     (case check_truncated_answers json_response payload of
        Inl e \<Rightarrow> (Inl e, w1)
      | Inr ws1 \<Rightarrow>
     (let w2 = w1\<lparr>logged := logged w1 @ ws1\<rparr> in
      case check_filtered_answers json_response payload of
        Inl e \<Rightarrow> (Inl e, w2)
      | Inr ws2 \<Rightarrow>
     (let w3 = w2\<lparr>logged := logged w2 @ ws2\<rparr> in
      case subscript_key json_response ''choices'' of
        Inl e \<Rightarrow> (Inl e, w3)
      | Inr choices \<Rightarrow>
     (case py_iter choices of
        Inl e \<Rightarrow> (Inl e, w3)
      | Inr cs \<Rightarrow>
     (case choice_contents cs of
        Inl e \<Rightarrow> (Inl e, w3)
      | Inr replies \<Rightarrow> (Inr replies, w3)))))))))"

subsection \<open>query\_chat\_model\_stream\<close>

text \<open>
  The callback is any callable; here it owns a state of type \<open>'c\<close> and either raises or
  returns the string that is appended to \<open>tokens\<close>. Its arguments are the token and the
  \<open>event_data\<close> keyword argument.
\<close>

type_synonym 'c callback = "'c \<Rightarrow> json \<Rightarrow> json \<Rightarrow> (exn + string) \<times> 'c"

text \<open>\<open>token = delta["content"] if "content" in delta else None\<close>\<close>

definition delta_token :: "json \<Rightarrow> exn + json" where
  "delta_token delta =
     (case py_in ''content'' delta of
        Inl e \<Rightarrow> Inl e
      | Inr True \<Rightarrow> subscript_key delta ''content''
      | Inr False \<Rightarrow> Inr JNull)"

text \<open>
  One event that is not the marker, up to the test \<open>if token:\<close>: the value of
  \<open>event_data["choices"]\<close> and the token.
\<close>

definition event_token :: "json_loads \<Rightarrow> string \<Rightarrow> exn + json \<times> json" where
  "event_token loads data =
     (case loads data of
        None \<Rightarrow> Inl JSONDecodeError
      | Some event_data \<Rightarrow>
     (case subscript_key event_data ''choices'' of
        Inl e \<Rightarrow> Inl e
      | Inr choices \<Rightarrow>
     (case subscript_0 choices of
        Inl e \<Rightarrow> Inl e
      | Inr choice \<Rightarrow>
     (case subscript_key choice ''delta'' of
        Inl e \<Rightarrow> Inl e
      | Inr delta \<Rightarrow>
     (case delta_token delta of
        Inl e \<Rightarrow> Inl e
      | Inr token \<Rightarrow> Inr (choices, token))))))"

text \<open>
  The \<open>for event in client.events()\<close> loop with the accumulator \<open>tokens\<close>. It ends
  when the events run out, at the marker, or with the first exception: of the event
  source, of the decoding, or of the callback.
\<close>

fun stream_events ::
  "json_loads \<Rightarrow> 'c callback \<Rightarrow> string \<Rightarrow> (exn + string) list \<Rightarrow> string list \<Rightarrow> 'c world
     \<Rightarrow> (exn + string list) \<times> 'c world" where
  "stream_events loads callback marker [] tokens w = (Inr tokens, w)"
| "stream_events loads callback marker (Inl e # events) tokens w = (Inl e, w)"
| "stream_events loads callback marker (Inr data # events) tokens w =
     (if data = marker then (Inr tokens, w)
      else
        (case event_token loads data of
           Inl e \<Rightarrow> (Inl e, w)
         | Inr (choices, token) \<Rightarrow>
             if truthy token then
               (case callback (cb_state w) token choices of
                  (outcome, c') \<Rightarrow>
                    (let w' = w\<lparr>cb_state := c',
                                cb_calls := cb_calls w @ [(token, choices, outcome)]\<rparr>
                     in case outcome of
                          Inl e \<Rightarrow> (Inl e, w')
                        | Inr returned \<Rightarrow>
                            stream_events loads callback marker events (tokens @ [returned]) w'))
             else stream_events loads callback marker events tokens w))"

text \<open>
  The body of \<open>query_chat_model_stream\<close>, one attempt of the retried function. The
  \<open>finally\<close> clause runs \<open>client.close()\<close> whatever the loop's outcome, and the
  outcome is then passed on: the exception, or \<open>["".join(tokens)]\<close>.
\<close>

definition query_chat_model_stream_attempt ::
  "json_loads \<Rightarrow> 'c callback \<Rightarrow> string \<Rightarrow> 'c world \<Rightarrow> (exn + string list) \<times> 'c world" where
  "query_chat_model_stream_attempt loads callback marker w =
     (case requests_post w of
        (Inl e, w1) \<Rightarrow> (Inl e, w1)
      | (Inr response, w1) \<Rightarrow>
     (case raise_for_status response of
        Inl e \<Rightarrow> (Inl e, w1)
      | Inr _ \<Rightarrow>
     (let w2 = w1\<lparr>clients_opened := clients_opened w1 + 1\<rparr> in
      case stream_events loads callback marker (sse_events response) [] w2 of
        (outcome, w3) \<Rightarrow>
     (let w4 = w3\<lparr>clients_closed := clients_closed w3 + 1\<rparr> in
      case outcome of
        Inl e \<Rightarrow> (Inl e, w4)
      | Inr tokens \<Rightarrow> (Inr [concat tokens], w4)))))"

subsection \<open>openai\_retry\<close>

text \<open>
  The decorator is \<open>tenacity.retry(reraise=True, retry=R, wait=..., stop=stop_after_attempt(OPENAI_MAX_RETRIES))\<close>
  with \<open>R = retry_if_exception_type(OpenAIError) and retry_if_not_exception_type(OpenAIUnauthorizedError)\<close>.
  Each of the two operands decides, for the exception of a failed attempt, whether to
  retry.
\<close>

definition retry_if_exception_type_OpenAIError :: "exn \<Rightarrow> bool" where
  "retry_if_exception_type_OpenAIError e = isinstance_OpenAIError e"

definition retry_if_not_exception_type_OpenAIUnauthorizedError :: "exn \<Rightarrow> bool" where
  "retry_if_not_exception_type_OpenAIUnauthorizedError e = (\<not> isinstance_OpenAIUnauthorizedError e)"

text \<open>
  Python's \<open>x and y\<close> between two objects evaluates to \<open>y\<close> when \<open>x\<close> is truthy and to
  \<open>x\<close> otherwise. A tenacity retry object defines neither \<open>__bool__\<close> nor \<open>__len__\<close>,
  so it is truthy (tenacity combines two conditions with \<open>&\<close>, not with \<open>and\<close>).
\<close>

definition py_and :: "bool \<Rightarrow> 'a \<Rightarrow> 'a \<Rightarrow> 'a" where
  "py_and x_is_truthy x y = (if x_is_truthy then y else x)"

definition openai_retry_condition :: "exn \<Rightarrow> bool" where
  "openai_retry_condition =
     py_and True retry_if_exception_type_OpenAIError
                 retry_if_not_exception_type_OpenAIUnauthorizedError"

text \<open>
  The default of \<open>OPENAI_MAX_RETRIES\<close>; the environment variable
  \<open>HAYSTACK_REMOTE_API_MAX_RETRIES\<close> can set any integer, so the bound is an argument
  below.
\<close>

definition OPENAI_MAX_RETRIES :: int where
  "OPENAI_MAX_RETRIES = 5"

text \<open>
  tenacity's loop. After an attempt that returns, the result is returned. After an attempt
  that raises: if the condition does not ask for a retry the exception is raised as it is;
  otherwise, if \<open>stop_after_attempt\<close> holds (\<open>attempt_number \<ge> max_attempt_number\<close>),
  \<open>reraise=True\<close> raises the exception of this last attempt as it is; otherwise the
  attempt number is incremented and the function is called again (after the wait, which
  the model leaves out). The result comes with the number of attempts made.
\<close>

function retry_loop ::
  "int \<Rightarrow> ('w \<Rightarrow> (exn + 'a) \<times> 'w) \<Rightarrow> nat \<Rightarrow> 'w \<Rightarrow> ((exn + 'a) \<times> nat) \<times> 'w" where
  "retry_loop max_attempt_number fn attempt_number w =
     (case fn w of
        (Inr result, w') \<Rightarrow> ((Inr result, attempt_number), w')
      | (Inl e, w') \<Rightarrow>
          if \<not> openai_retry_condition e then ((Inl e, attempt_number), w')
          else if int attempt_number \<ge> max_attempt_number then ((Inl e, attempt_number), w')
          else retry_loop max_attempt_number fn (attempt_number + 1) w')"
  by pat_completeness auto
termination
  by (relation "measure (\<lambda>(m, fn, a, w). nat (m - int a))") auto

declare retry_loop.simps [simp del]

definition openai_retry ::
  "int \<Rightarrow> ('w \<Rightarrow> (exn + 'a) \<times> 'w) \<Rightarrow> 'w \<Rightarrow> ((exn + 'a) \<times> nat) \<times> 'w" where
  "openai_retry max_attempt_number fn w = retry_loop max_attempt_number fn 1 w"

definition query_chat_model ::
  "int \<Rightarrow> json_loads \<Rightarrow> payload \<Rightarrow> 'c world \<Rightarrow> ((exn + string list) \<times> nat) \<times> 'c world" where
  "query_chat_model max_retries loads payload w =
     openai_retry max_retries (query_chat_model_attempt loads payload) w"

definition query_chat_model_stream ::
  "int \<Rightarrow> json_loads \<Rightarrow> 'c callback \<Rightarrow> string \<Rightarrow> 'c world
     \<Rightarrow> ((exn + string list) \<times> nat) \<times> 'c world" where
  "query_chat_model_stream max_retries loads callback marker w =
     openai_retry max_retries (query_chat_model_stream_attempt loads callback marker) w"

subsection \<open>Example inputs\<close>

text \<open>
  A decoded response with two choices, both cut off at the token limit, the first with
  whitespace around its content; a \<open>json.loads\<close> that knows this one body; a payload that
  asks for one completion; and an initial world around a given server.
\<close>

definition example_body :: json where
  "example_body =
     JObj [(''choices'',
            JArr [JObj [(''message'', JObj [(''role'', JStr ''assistant''), (''content'', JStr '' Paris '')]),
                        (''finish_reason'', JStr ''length'')],
                  JObj [(''message'', JObj [(''role'', JStr ''assistant''), (''content'', JStr ''Berlin'')]),
                        (''finish_reason'', JStr ''length'')]])]"

definition example_loads :: json_loads where
  "example_loads s = (if s = ''{...}'' then Some example_body else None)"

definition example_world :: "(nat \<Rightarrow> exn + response) \<Rightarrow> unit world" where
  "example_world srv =
     \<lparr>server = srv, posts = 0, logged = [], cb_state = (), cb_calls = [],
      clients_opened = 0, clients_closed = 0\<rparr>"

definition ok_response :: response where
  "ok_response = \<lparr>status_code = 200, resp_text = ''{...}'', sse_events = []\<rparr>"

definition example_payload :: payload where
  "example_payload = [(''model'', JStr ''gpt-3.5-turbo''), (''n'', JNum 1)]"

text \<open>A response with status 200 whose body is not JSON, for instance a proxy's HTML page.\<close>

definition html_response :: response where
  "html_response = \<lparr>status_code = 200, resp_text = ''<html>'', sse_events = []\<rparr>"

text \<open>
  A stream of four events and the marker, with one more event after it: a delta without
  content, two with a token and one with an empty content. The first callback is the one
  of the end-to-end test (\<open>self.responses += token; return token\<close>); the second always
  raises.
\<close>

definition delta_event :: "json \<Rightarrow> json" where
  "delta_event delta = JObj [(''choices'', JArr [JObj [(''index'', JNum 0), (''delta'', delta)]])]"

definition stream_loads :: json_loads where
  "stream_loads s =
     (if s = ''{role}'' then Some (delta_event (JObj [(''role'', JStr ''assistant'')]))
      else if s = ''{Hello}'' then Some (delta_event (JObj [(''content'', JStr ''Hello'')]))
      else if s = ''{}'' then Some (delta_event (JObj [(''content'', JStr [])]))
      else if s = ''{ world}'' then Some (delta_event (JObj [(''content'', JStr '' world'')]))
      else None)"

definition stream_response :: response where
  "stream_response =
     \<lparr>status_code = 200, resp_text = [],
      sse_events = map Inr [''{role}'', ''{Hello}'', ''{}'', ''{ world}'', ''[DONE]'', ''{Hello}'']\<rparr>"

definition stream_world :: "'c \<Rightarrow> 'c world" where
  "stream_world c =
     \<lparr>server = (\<lambda>i. Inr stream_response), posts = 0, logged = [], cb_state = c, cb_calls = [],
      clients_opened = 0, clients_closed = 0\<rparr>"

definition test_callback :: "string callback" where
  "test_callback responses token event_data =
     (case token of
        JStr s \<Rightarrow> (Inr s, responses @ s)
      | _ \<Rightarrow> (Inl TypeError, responses))"

definition raising_callback :: "unit callback" where
  "raising_callback c token event_data = (Inl (OtherException ''callback failed''), c)"

text \<open>
  A callback that fails the first time it is called and returns the token afterwards; its
  state records whether it has failed already.
\<close>

definition raise_once_callback :: "bool callback" where
  "raise_once_callback raised token event_data =
     (if raised then
        (case token of
           JStr s \<Rightarrow> (Inr s, raised)
         | _ \<Rightarrow> (Inl TypeError, raised))
      else (Inl (OtherException ''callback failed''), True))"

section \<open>Properties of BatchCreator\<close>

lemma run_unforced_below:
  assumes "max_batch_size self = Some k" "int (length (batch self)) + 1 < k"
  shows "run self x False = (None, self\<lparr>batch := batch self @ [x]\<rparr>)"
  using assms by (simp add: run_def Let_def)

lemma run_unforced_reached:
  assumes "max_batch_size self = Some k" "k \<le> int (length (batch self)) + 1"
  shows "run self x False = (Some (batch self @ [x]), self\<lparr>batch := []\<rparr>)"
  using assms by (simp add: run_def Let_def)

lemma run_seq_unforced:
  assumes "max_batch_size self = Some k" "0 < k" "int (length (batch self)) < k"
  shows "case run_seq self (unforced items) of
           (outs, self') \<Rightarrow>
             max_batch_size self' = Some k \<and>
             int (length (batch self')) < k \<and>
             int (length (released outs)) = (int (length (batch self)) + int (length items)) div k \<and>
             int (length (batch self')) = (int (length (batch self)) + int (length items)) mod k \<and>
             (\<forall>b\<in>set (released outs). int (length b) = k) \<and>
             concat (released outs) @ batch self' = batch self @ items"
  using assms
proof (induction items arbitrary: self)
  case Nil
  then show ?case by (simp add: unforced_def)
next
  case (Cons x items)
  show ?case
  proof (cases "int (length (batch self)) + 1 < k")
    case True
    let ?s = "self\<lparr>batch := batch self @ [x]\<rparr>"
    have r: "run self x False = (None, ?s)"
      using run_unforced_below[OF Cons.prems(1) True] .
    have ih: "case run_seq ?s (unforced items) of
           (outs, self') \<Rightarrow>
             max_batch_size self' = Some k \<and>
             int (length (batch self')) < k \<and>
             int (length (released outs)) = (int (length (batch ?s)) + int (length items)) div k \<and>
             int (length (batch self')) = (int (length (batch ?s)) + int (length items)) mod k \<and>
             (\<forall>b\<in>set (released outs). int (length b) = k) \<and>
             concat (released outs) @ batch self' = batch ?s @ items"
      using Cons.prems True by (intro Cons.IH) auto
    show ?thesis
      using ih r by (auto simp: unforced_def algebra_simps split: prod.splits)
  next
    case False
    let ?s = "self\<lparr>batch := []\<rparr>"
    have len: "int (length (batch self)) + 1 = k" using False Cons.prems by simp
    have r: "run self x False = (Some (batch self @ [x]), ?s)"
      using run_unforced_reached[OF Cons.prems(1)] False by simp
    have ih: "case run_seq ?s (unforced items) of
           (outs, self') \<Rightarrow>
             max_batch_size self' = Some k \<and>
             int (length (batch self')) < k \<and>
             int (length (released outs)) = (int (length (batch ?s)) + int (length items)) div k \<and>
             int (length (batch self')) = (int (length (batch ?s)) + int (length items)) mod k \<and>
             (\<forall>b\<in>set (released outs). int (length b) = k) \<and>
             concat (released outs) @ batch self' = batch ?s @ items"
      using Cons.prems by (intro Cons.IH) auto
    have d: "(int (length (batch self)) + int (length (x # items))) div k = 1 + int (length items) div k"
      and m: "(int (length (batch self)) + int (length (x # items))) mod k = int (length items) mod k"
    proof -
      have e: "int (length (batch self)) + int (length (x # items)) = k + int (length items)"
        using len by simp
      have k0: "k \<noteq> 0" using Cons.prems(2) by simp
      show "(int (length (batch self)) + int (length (x # items))) div k = 1 + int (length items) div k"
        unfolding e using k0 div_add_self1[of k "int (length items)"] by simp
      show "(int (length (batch self)) + int (length (x # items))) mod k = int (length items) mod k"
        unfolding e by simp
    qed
    show ?thesis
      using ih r len unfolding d m by (auto simp: unforced_def split: prod.splits)
  qed
qed


text \<open>
  C1 (as the code has it). After the item is appended, \<open>run\<close> returns a batch if and
  only if \<open>release_batch\<close> is true, or \<open>max_batch_size\<close> is \<open>None\<close>, or the buffer length
  has reached \<open>max_batch_size\<close>. For a positive \<open>max_batch_size\<close> this is the condition
  \<open>release_batch or (max_batch_size > 0 and len(buffer) >= max_batch_size)\<close>; for
  \<open>max_batch_size\<close> 0 (the default) or \<open>None\<close> the guard that keeps the buffer is never
  true, so every call returns a batch.
\<close>

theorem run_returns_batch_iff:
  "fst (run self item release_batch) \<noteq> None \<longleftrightarrow>
     release_batch \<or>
     (case max_batch_size self of
        None \<Rightarrow> True
      | Some m \<Rightarrow> m \<le> int (length (batch self @ [item])))"
  by (auto simp: run_def Let_def split: option.splits)

text \<open>
  The claim as it is written fails for \<open>max_batch_size = 0\<close> and for \<open>None\<close>: with
  \<open>release_batch\<close> false, the very first call already returns a batch.
\<close>

theorem run_max_batch_size_zero_counterexample:
  "fst (run (BatchCreator_init (Some 0)) ''a'' False) = Some [''a''] \<and>
   fst (run (BatchCreator_init None) ''a'' False) = Some [''a'']"
  by (simp add: run_def BatchCreator_init_def)

text \<open>
  C7. A fresh \<open>BatchCreator\<close> with \<open>max_batch_size = k > 0\<close> that receives \<open>N\<close> items with
  \<open>release_batch\<close> false releases exactly \<open>N div k\<close> batches, each of exactly \<open>k\<close> items
  (together, in order, the items received, the last \<open>N mod k\<close> staying in the buffer);
  in any state, a call that leaves the buffer shorter than \<open>k\<close> returns no batch, and
  after any call that returns a batch the buffer is empty. The example with \<open>k = 2\<close>:
  \<open>"a"\<close> returns nothing, \<open>"b"\<close> returns \<open>["a", "b"]\<close>, and \<open>"c"\<close> with
  \<open>release_batch\<close> returns \<open>["c"]\<close>.
\<close>

theorem batches_of_k:
  "0 < k \<Longrightarrow>
   (case run_seq (BatchCreator_init (Some k)) (unforced items) of
      (outs, self') \<Rightarrow>
        int (length (released outs)) = int (length items) div k \<and>
        (\<forall>b\<in>set (released outs). int (length b) = k) \<and>
        concat (released outs) @ batch self' = items \<and>
        int (length (batch self')) = int (length items) mod k) \<and>
   (\<forall>self item. max_batch_size self = Some k \<and> int (length (batch self @ [item])) < k
       \<longrightarrow> fst (run self item False) = None) \<and>
   (\<forall>self item release_batch b self'.
       run self item release_batch = (Some b, self') \<longrightarrow> batch self' = []) \<and>
   run_seq (BatchCreator_init (Some 2)) [(''a'', False), (''b'', False), (''c'', True)] =
     ([None, Some [''a'', ''b''], Some [''c'']], \<lparr>max_batch_size = Some 2, batch = []\<rparr>)"
proof -
  assume k: "0 < k"
  let ?init = "BatchCreator_init (Some k) :: 'a BatchCreator"
  have "case run_seq ?init (unforced items) of
           (outs, self') \<Rightarrow>
             max_batch_size self' = Some k \<and>
             int (length (batch self')) < k \<and>
             int (length (released outs)) = (int (length (batch ?init)) + int (length items)) div k \<and>
             int (length (batch self')) = (int (length (batch ?init)) + int (length items)) mod k \<and>
             (\<forall>b\<in>set (released outs). int (length b) = k) \<and>
             concat (released outs) @ batch self' = batch ?init @ items"
    using k by (intro run_seq_unforced) (simp_all add: BatchCreator_init_def)
  then have seq: "case run_seq ?init (unforced items) of
      (outs, self') \<Rightarrow>
        int (length (released outs)) = int (length items) div k \<and>
        (\<forall>b\<in>set (released outs). int (length b) = k) \<and>
        concat (released outs) @ batch self' = items \<and>
        int (length (batch self')) = int (length items) mod k"
    by (simp add: BatchCreator_init_def split: prod.splits)
  have below: "\<forall>(self :: 'b BatchCreator) item.
       max_batch_size self = Some k \<and> int (length (batch self @ [item])) < k
       \<longrightarrow> fst (run self item False) = None"
    by (simp add: run_def Let_def)
  have empty: "\<forall>(self :: 'c BatchCreator) item release_batch b self'.
       run self item release_batch = (Some b, self') \<longrightarrow> batch self' = []"
    by (auto simp: run_def Let_def split: if_splits)
  have ex: "run_seq (BatchCreator_init (Some 2)) [(''a'', False), (''b'', False), (''c'', True)] =
     ([None, Some [''a'', ''b''], Some [''c'']], \<lparr>max_batch_size = Some 2, batch = []\<rparr>)"
    by (simp add: run_def BatchCreator_init_def)
  show ?thesis using seq below empty ex by blast
qed

theorem batches_of_k_witness:
  "(0::int) < 2 \<and>
   released (fst (run_seq (BatchCreator_init (Some 2)) (unforced ''abcde''))) = [''ab'', ''cd''] \<and>
   batch (snd (run_seq (BatchCreator_init (Some 2)) (unforced ''abcde''))) = ''e'' \<and>
   int (length [''ab'', ''cd'']) = int (length ''abcde'') div 2"
  using batches_of_k [of 2 "''abcde''"]
  by (simp add: unforced_def run_def BatchCreator_init_def)

section \<open>Properties of enforce\_token\_limit\<close>

text \<open>
  What holds of the truncating branch. A warning is emitted exactly when the prompt's token
  count strictly exceeds \<open>max_tokens_limit\<close>. In that case the function returns the
  decoding of \<open>tokens[:max_tokens_limit]\<close>; for a limit that is not negative these are
  the first \<open>max_tokens_limit\<close> tokens, exactly \<open>max_tokens_limit\<close> of them. The
  returned prompt is not encoded again; if the tokenizer encodes the decoded prefix back to
  the same tokens, then its token count is the limit.
\<close>

lemma enforce_token_limit_truncates:
  "(snd (enforce_token_limit prompt tok max_tokens_limit) \<noteq> [] \<longleftrightarrow>
      max_tokens_limit < int (length (encode tok prompt))) \<and>
   (max_tokens_limit < int (length (encode tok prompt)) \<longrightarrow>
      enforce_token_limit prompt tok max_tokens_limit =
        (decode tok (py_slice_to (encode tok prompt) max_tokens_limit),
         [PromptTruncated (length (encode tok prompt)) max_tokens_limit]) \<and>
      (0 \<le> max_tokens_limit \<longrightarrow>
         py_slice_to (encode tok prompt) max_tokens_limit =
           take (nat max_tokens_limit) (encode tok prompt) \<and>
         int (length (py_slice_to (encode tok prompt) max_tokens_limit)) = max_tokens_limit \<and>
         (encode tok (decode tok (take (nat max_tokens_limit) (encode tok prompt))) =
            take (nat max_tokens_limit) (encode tok prompt) \<longrightarrow>
          int (length (encode tok (fst (enforce_token_limit prompt tok max_tokens_limit)))) =
            max_tokens_limit)))"
  by (auto simp: enforce_token_limit_def py_slice_to_def Let_def)

lemma enforce_token_limit_truncates_example:
  "(2::int) < int (length (encode char_tokenizer ''abcde'')) \<and> (0::int) \<le> 2 \<and>
   encode char_tokenizer (decode char_tokenizer (take (nat 2) (encode char_tokenizer ''abcde''))) =
     take (nat 2) (encode char_tokenizer ''abcde'') \<and>
   enforce_token_limit ''abcde'' char_tokenizer 2 = (''ab'', [PromptTruncated 5 2]) \<and>
   int (length (encode char_tokenizer (fst (enforce_token_limit ''abcde'' char_tokenizer 2)))) = 2"
  using enforce_token_limit_truncates [of "''abcde''" char_tokenizer 2]
  by (simp add: enforce_token_limit_def py_slice_to_def char_tokenizer_def)

text \<open>With a negative limit the slice drops tokens from the end.\<close>

lemma enforce_token_limit_negative_limit:
  "enforce_token_limit ''abc'' char_tokenizer (- 1) = (''ab'', [PromptTruncated 3 (- 1)])"
  by (simp add: enforce_token_limit_def py_slice_to_def char_tokenizer_def)


text \<open>
  C6. The claim, like the function's docstring ("the prompt text that fits within the max
  tokens limit of the model"), says that the truncated prompt has exactly
  \<open>max_tokens_limit\<close> tokens. The code decodes the first \<open>max_tokens_limit\<close> tokens and
  returns the text without encoding it again. With a tokenizer that appends an
  end-of-sequence token, \<open>"abc"\<close> has 4 tokens, the limit 2 keeps \<open>"ab"\<close>, and \<open>"ab"\<close> has
  3 tokens: the returned prompt is over the limit.
\<close>

theorem enforce_token_limit_exceeds_limit:
  "(2::int) < int (length (encode eos_tokenizer ''abc'')) \<and>
   enforce_token_limit ''abc'' eos_tokenizer 2 = (''ab'', [PromptTruncated 4 2]) \<and>
   length (encode eos_tokenizer (fst (enforce_token_limit ''abc'' eos_tokenizer 2))) = 3 \<and>
   \<not> int (length (encode eos_tokenizer (fst (enforce_token_limit ''abc'' eos_tokenizer 2)))) \<le> 2"
  by (simp add: enforce_token_limit_def py_slice_to_def eos_tokenizer_def)

text \<open>
  C10. A prompt whose token count is at most \<open>max_tokens_limit\<close> comes back unchanged and
  nothing is logged.
\<close>

theorem enforce_token_limit_identity:
  "int (length (encode tok prompt)) \<le> max_tokens_limit \<Longrightarrow>
   enforce_token_limit prompt tok max_tokens_limit = (prompt, [])"
  by (simp add: enforce_token_limit_def Let_def)

theorem enforce_token_limit_identity_witness:
  "int (length (encode eos_tokenizer ''abc'')) \<le> 4 \<and>
   enforce_token_limit ''abc'' eos_tokenizer 4 = (''abc'', [])"
  using enforce_token_limit_identity [of eos_tokenizer "''abc''" 4]
  by (simp add: eos_tokenizer_def)

section \<open>Properties of raise\_for\_status\<close>

lemma ends_with_append: "ends_with (pre @ t) t"
  by (simp add: ends_with_def)

text \<open>
  C3. \<open>raise_for_status\<close> raises if and only if the status code is at least 400. The error
  is a rate-limit error for 429, an unauthorized error for 401 and the generic
  \<open>OpenAIError\<close> for every other such status; it carries the status code, and its message
  ends with the raw body text.
\<close>

theorem raise_for_status_classifies:
  "((\<exists>e. raise_for_status r = Inl e) \<longleftrightarrow> 400 \<le> status_code r) \<and>
   (\<forall>e. raise_for_status r = Inl e \<longrightarrow>
      classify e =
        Some (if status_code r = 429 then RateLimited
              else if status_code r = 401 then Unauthorized
              else GenericProviderError) \<and>
      carried_status e = Some (status_code r) \<and>
      ends_with (error_message e) (resp_text r))"
proof -
  have body: "ends_with (''OpenAI returned an error.'' @ [CHR 0x0A] @
                   ''Status code: '' @ str_int (status_code r) @ [CHR 0x0A] @
                   ''Response body: '' @ resp_text r) (resp_text r)"
    using ends_with_append [of "''OpenAI returned an error.'' @ [CHR 0x0A] @
                   ''Status code: '' @ str_int (status_code r) @ [CHR 0x0A] @
                   ''Response body: ''" "resp_text r"]
    by simp
  have rate: "ends_with (''API rate limit exceeded: '' @ resp_text r) (resp_text r)"
    by (rule ends_with_append)
  have key: "ends_with (''API key is invalid: '' @ resp_text r) (resp_text r)"
    by (rule ends_with_append)
  show ?thesis
    using body rate key by (auto simp: raise_for_status_def split: if_splits)
qed

theorem raise_for_status_classifies_witness:
  "raise_for_status \<lparr>status_code = 429, resp_text = ''slow down'', sse_events = []\<rparr> =
     Inl (OpenAIRateLimitError ''API rate limit exceeded: slow down'') \<and>
   classify (OpenAIRateLimitError ''API rate limit exceeded: slow down'') = Some RateLimited \<and>
   carried_status (OpenAIRateLimitError ''API rate limit exceeded: slow down'') = Some 429 \<and>
   ends_with (error_message (OpenAIRateLimitError ''API rate limit exceeded: slow down''))
     ''slow down'' \<and>
   (\<exists>m. raise_for_status \<lparr>status_code = 500, resp_text = ''oops'', sse_events = []\<rparr> =
          Inl (OpenAIError m (Some 500)) \<and> ends_with m ''oops'') \<and>
   raise_for_status \<lparr>status_code = 200, resp_text = ''{}'', sse_events = []\<rparr> = Inr ()"
  using raise_for_status_classifies
          [of "\<lparr>status_code = 429, resp_text = ''slow down'', sse_events = []\<rparr>"]
        raise_for_status_classifies
          [of "\<lparr>status_code = 500, resp_text = ''oops'', sse_events = []\<rparr>"]
  by (simp add: raise_for_status_def)

section \<open>Properties of query\_chat\_model\<close>

lemma count_finish_reason_ok:
  "map (\<lambda>c. subscript_key c ''finish_reason'') cs = map Inr frs \<Longrightarrow>
   count_finish_reason reason cs = Inr (length (filter (\<lambda>fr. fr = JStr reason) frs))"
proof (induction cs arbitrary: frs)
  case Nil
  then show ?case by simp
next
  case (Cons c cs)
  then obtain fr frs' where frs: "frs = fr # frs'" by (cases frs) auto
  with Cons show ?case by auto
qed

lemma choice_contents_ok:
  "map message_content cs = map (\<lambda>s. Inr (JStr s)) contents \<Longrightarrow>
   choice_contents cs = Inr (map py_strip contents)"
proof (induction cs arbitrary: contents)
  case Nil
  then show ?case by simp
next
  case (Cons c cs)
  then obtain s ss where "contents = s # ss" by (cases contents) auto
  with Cons show ?case by auto
qed


lemma query_chat_model_attempt_ok:
  assumes "server w (posts w) = Inr response"
    and "status_code response < 400"
    and "loads (resp_text response) = Some json_response"
    and "subscript_key json_response ''choices'' = Inr (JArr cs)"
    and "map message_content cs = map (\<lambda>s. Inr (JStr s)) contents"
    and "map (\<lambda>c. subscript_key c ''finish_reason'') cs = map Inr frs"
    and "map_of payload ''n'' = Some n"
  shows "query_chat_model_attempt loads payload w =
           (Inr (map py_strip contents),
            w\<lparr>posts := posts w + 1,
              logged := logged w @
                (if length (filter (\<lambda>fr. fr = JStr ''length'') frs) > 0
                 then [Truncated (length (filter (\<lambda>fr. fr = JStr ''length'') frs)) n] else []) @
                (if length (filter (\<lambda>fr. fr = JStr ''content_filter'') frs) > 0
                 then [Filtered (length (filter (\<lambda>fr. fr = JStr ''content_filter'') frs)) n] else [])\<rparr>)"
proof -
  have t: "check_truncated_answers json_response payload =
      Inr (if length (filter (\<lambda>fr. fr = JStr ''length'') frs) > 0
           then [Truncated (length (filter (\<lambda>fr. fr = JStr ''length'') frs)) n] else [])"
    using assms(4,7) count_finish_reason_ok [OF assms(6), of "''length''"]
    by (simp add: check_truncated_answers_def)
  have f: "check_filtered_answers json_response payload =
      Inr (if length (filter (\<lambda>fr. fr = JStr ''content_filter'') frs) > 0
           then [Filtered (length (filter (\<lambda>fr. fr = JStr ''content_filter'') frs)) n] else [])"
    using assms(4,7) count_finish_reason_ok [OF assms(6), of "''content_filter''"]
    by (simp add: check_filtered_answers_def)
  have s: "raise_for_status response = Inr ()"
    using assms(2) by (simp add: raise_for_status_def)
  show ?thesis
    unfolding query_chat_model_attempt_def requests_post_def
    using assms(1,3,4) s choice_contents_ok [OF assms(5)]
    by (simp add: t f Let_def del: filter.simps)
qed

lemma last_dropWhile: "dropWhile P xs \<noteq> [] \<Longrightarrow> last (dropWhile P xs) = last xs"
  by (induction xs) (auto split: if_splits)

lemma py_strip_decomp:
  "\<exists>pre post. s = pre @ py_strip s @ post \<and>
     (\<forall>c\<in>set pre. py_isspace c) \<and> (\<forall>c\<in>set post. py_isspace c)"
proof -
  let ?t = "dropWhile py_isspace s"
  let ?pre = "takeWhile py_isspace s"
  let ?post = "rev (takeWhile py_isspace (rev ?t))"
  have "py_strip s @ ?post = rev (takeWhile py_isspace (rev ?t) @ dropWhile py_isspace (rev ?t))"
    by (simp only: py_strip_def rev_append)
  also have "\<dots> = rev (rev ?t)"
    by (simp only: takeWhile_dropWhile_id)
  finally have t: "?t = py_strip s @ ?post"
    by simp
  have "s = ?pre @ ?t" by simp
  with t have "s = ?pre @ py_strip s @ ?post" by simp
  moreover have "\<forall>c\<in>set ?pre. py_isspace c" by (auto dest: set_takeWhileD)
  moreover have "\<forall>c\<in>set ?post. py_isspace c" by (auto dest: set_takeWhileD)
  ultimately show ?thesis by blast
qed

lemma py_strip_ends:
  assumes "py_strip s \<noteq> []"
  shows "\<not> py_isspace (hd (py_strip s)) \<and> \<not> py_isspace (last (py_strip s))"
proof -
  let ?t = "dropWhile py_isspace s"
  let ?d = "dropWhile py_isspace (rev ?t)"
  have d: "?d \<noteq> []" using assms by (simp add: py_strip_def)
  have t: "?t \<noteq> []"
  proof
    assume "?t = []"
    then have "?d = []" by (simp only: rev.simps dropWhile.simps)
    with d show False by contradiction
  qed
  have "last (py_strip s) = hd ?d" using d by (simp add: py_strip_def last_rev)
  moreover have "\<not> py_isspace (hd ?d)" using d by (rule hd_dropWhile)
  moreover have "hd (py_strip s) = last ?d" using d by (simp add: py_strip_def hd_rev)
  moreover have "last ?d = last (rev ?t)" using d by (rule last_dropWhile)
  moreover have "last (rev ?t) = hd ?t" using t by (simp add: last_rev)
  moreover have "\<not> py_isspace (hd ?t)" using t by (rule hd_dropWhile)
  ultimately show ?thesis by simp
qed

lemma retry_loop_returns:
  "fn w = (Inr v, w') \<Longrightarrow> retry_loop m fn a w = ((Inr v, a), w')"
  by (subst retry_loop.simps) simp

lemma retry_loop_not_retried:
  "fn w = (Inl e, w') \<Longrightarrow> \<not> openai_retry_condition e \<Longrightarrow> retry_loop m fn a w = ((Inl e, a), w')"
  by (subst retry_loop.simps) simp

lemma retry_loop_stopped:
  "fn w = (Inl e, w') \<Longrightarrow> m \<le> int a \<Longrightarrow> retry_loop m fn a w = ((Inl e, a), w')"
  by (subst retry_loop.simps) simp

lemma retry_loop_again:
  "fn w = (Inl e, w') \<Longrightarrow> openai_retry_condition e \<Longrightarrow> int a < m \<Longrightarrow>
   retry_loop m fn a w = retry_loop m fn (a + 1) w'"
  by (subst retry_loop.simps) simp

lemma openai_retry_condition_iff:
  "openai_retry_condition e \<longleftrightarrow> \<not> isinstance_OpenAIUnauthorizedError e"
  by (simp add: openai_retry_condition_def py_and_def
      retry_if_not_exception_type_OpenAIUnauthorizedError_def)


lemma query_chat_model_first_attempt:
  assumes "server w (posts w) = Inr response"
    and "status_code response < 400"
    and "loads (resp_text response) = Some json_response"
    and "subscript_key json_response ''choices'' = Inr (JArr cs)"
    and "map message_content cs = map (\<lambda>s. Inr (JStr s)) contents"
    and "map (\<lambda>c. subscript_key c ''finish_reason'') cs = map Inr frs"
    and "map_of payload ''n'' = Some n"
  shows "query_chat_model max_retries loads payload w =
           ((Inr (map py_strip contents), 1),
            w\<lparr>posts := posts w + 1,
              logged := logged w @
                (if length (filter (\<lambda>fr. fr = JStr ''length'') frs) > 0
                 then [Truncated (length (filter (\<lambda>fr. fr = JStr ''length'') frs)) n] else []) @
                (if length (filter (\<lambda>fr. fr = JStr ''content_filter'') frs) > 0
                 then [Filtered (length (filter (\<lambda>fr. fr = JStr ''content_filter'') frs)) n] else [])\<rparr>)"
  unfolding query_chat_model_def openai_retry_def
  by (rule retry_loop_returns)
     (rule query_chat_model_attempt_ok
        [where response = response and json_response = json_response and cs = cs and frs = frs],
      (fact assms)+)

text \<open>
  C9. For a response below status 400 whose body decodes to an object with a list of
  choices, each with a string \<open>message.content\<close> and a \<open>finish_reason\<close> (and a payload
  holding \<open>"n"\<close>, which the two checks read when they warn), \<open>query_chat_model\<close> returns
  after one attempt one reply per choice, in order: the content with leading and trailing
  whitespace removed. So each content is some whitespace, then the reply, then some
  whitespace, and a non-empty reply neither starts nor ends with whitespace.
\<close>

theorem query_chat_model_replies:
  assumes "server w (posts w) = Inr response"
    and "status_code response < 400"
    and "loads (resp_text response) = Some json_response"
    and "subscript_key json_response ''choices'' = Inr (JArr cs)"
    and "map message_content cs = map (\<lambda>s. Inr (JStr s)) contents"
    and "map (\<lambda>c. subscript_key c ''finish_reason'') cs = map Inr frs"
    and "map_of payload ''n'' = Some n"
  shows "fst (query_chat_model max_retries loads payload w) = (Inr (map py_strip contents), 1) \<and>
         length (map py_strip contents) = length cs \<and>
         (\<forall>s\<in>set contents.
            (\<exists>pre post. s = pre @ py_strip s @ post \<and>
               (\<forall>c\<in>set pre. py_isspace c) \<and> (\<forall>c\<in>set post. py_isspace c)) \<and>
            (py_strip s \<noteq> [] \<longrightarrow>
               \<not> py_isspace (hd (py_strip s)) \<and> \<not> py_isspace (last (py_strip s))))"
proof -
  have "length (map message_content cs) = length (map (\<lambda>s. Inr (JStr s) :: exn + json) contents)"
    using assms(5) by (rule arg_cong)
  then have len: "length (map py_strip contents) = length cs" by simp
  have res: "fst (query_chat_model max_retries loads payload w) = (Inr (map py_strip contents), 1)"
    using query_chat_model_first_attempt
        [where response = response and json_response = json_response and cs = cs and frs = frs
           and contents = contents and n = n and loads = loads and payload = payload and w = w
           and max_retries = max_retries, OF assms] by simp
  show ?thesis
    using res len py_strip_decomp py_strip_ends by blast
qed

theorem query_chat_model_replies_witness:
  "server (example_world (\<lambda>i. Inr ok_response)) (posts (example_world (\<lambda>i. Inr ok_response)))
     = Inr ok_response \<and>
   status_code ok_response < 400 \<and>
   example_loads (resp_text ok_response) = Some example_body \<and>
   map_of example_payload ''n'' = Some (JNum 1) \<and>
   fst (query_chat_model 5 example_loads example_payload (example_world (\<lambda>i. Inr ok_response)))
     = (Inr [''Paris'', ''Berlin''], 1) \<and>
   '' Paris '' \<noteq> ''Paris''"
  using query_chat_model_replies
    [where w = "example_world (\<lambda>i. Inr ok_response)" and response = ok_response
       and loads = example_loads and json_response = example_body
       and cs = "[JObj [(''message'', JObj [(''role'', JStr ''assistant''), (''content'', JStr '' Paris '')]),
                        (''finish_reason'', JStr ''length'')],
                  JObj [(''message'', JObj [(''role'', JStr ''assistant''), (''content'', JStr ''Berlin'')]),
                        (''finish_reason'', JStr ''length'')]]"
       and contents = "['' Paris '', ''Berlin'']"
       and frs = "[JStr ''length'', JStr ''length'']"
       and payload = example_payload and n = "JNum 1" and max_retries = 5]
  by (simp add: example_world_def ok_response_def example_loads_def example_body_def
        example_payload_def message_content_def py_strip_def py_isspace_def)

text \<open>
  C8. Under the same conditions, whatever the finish reasons are, the outcome is the full
  list of replies and never an exception. What is logged is one warning with the number of
  choices that finished with \<open>"length"\<close> if there is any, then one with the number that
  finished with \<open>"content_filter"\<close> if there is any, each against \<open>payload["n"]\<close> and
  not against the number of choices returned.
\<close>

theorem finish_reason_only_warns:
  assumes "server w (posts w) = Inr response"
    and "status_code response < 400"
    and "loads (resp_text response) = Some json_response"
    and "subscript_key json_response ''choices'' = Inr (JArr cs)"
    and "map message_content cs = map (\<lambda>s. Inr (JStr s)) contents"
    and "map (\<lambda>c. subscript_key c ''finish_reason'') cs = map Inr frs"
    and "map_of payload ''n'' = Some n"
  shows "case query_chat_model max_retries loads payload w of
           ((outcome, attempts), w') \<Rightarrow>
             outcome = Inr (map py_strip contents) \<and>
             length (map py_strip contents) = length cs \<and>
             logged w' = logged w @
               (let truncated_completions = length (filter (\<lambda>fr. fr = JStr ''length'') frs)
                in if truncated_completions > 0 then [Truncated truncated_completions n] else []) @
               (let filtered_completions = length (filter (\<lambda>fr. fr = JStr ''content_filter'') frs)
                in if filtered_completions > 0 then [Filtered filtered_completions n] else [])"
proof -
  have "length (map message_content cs) = length (map (\<lambda>s. Inr (JStr s) :: exn + json) contents)"
    using assms(5) by (rule arg_cong)
  then have len: "length (map py_strip contents) = length cs" by simp
  show ?thesis
    using len by (simp add: query_chat_model_first_attempt
        [where response = response and json_response = json_response and cs = cs and frs = frs
           and contents = contents and n = n and loads = loads and payload = payload and w = w
           and max_retries = max_retries, OF assms] Let_def del: filter.simps)
qed

theorem finish_reason_only_warns_witness:
  "server (example_world (\<lambda>i. Inr ok_response)) (posts (example_world (\<lambda>i. Inr ok_response)))
     = Inr ok_response \<and>
   status_code ok_response < 400 \<and>
   example_loads (resp_text ok_response) = Some example_body \<and>
   map_of example_payload ''n'' = Some (JNum 1) \<and>
   fst (fst (query_chat_model 5 example_loads example_payload (example_world (\<lambda>i. Inr ok_response))))
     = Inr [''Paris'', ''Berlin''] \<and>
   logged (snd (query_chat_model 5 example_loads example_payload (example_world (\<lambda>i. Inr ok_response))))
     = [Truncated 2 (JNum 1)]"
  using finish_reason_only_warns
    [where w = "example_world (\<lambda>i. Inr ok_response)" and response = ok_response
       and loads = example_loads and json_response = example_body
       and cs = "[JObj [(''message'', JObj [(''role'', JStr ''assistant''), (''content'', JStr '' Paris '')]),
                        (''finish_reason'', JStr ''length'')],
                  JObj [(''message'', JObj [(''role'', JStr ''assistant''), (''content'', JStr ''Berlin'')]),
                        (''finish_reason'', JStr ''length'')]]"
       and contents = "['' Paris '', ''Berlin'']"
       and frs = "[JStr ''length'', JStr ''length'']"
       and payload = example_payload and n = "JNum 1" and max_retries = 5]
  by (simp add: example_world_def ok_response_def example_loads_def example_body_def
        example_payload_def message_content_def py_strip_def py_isspace_def split: prod.splits)


section \<open>Properties of openai\_retry\<close>

text \<open>
  The parts of C2 that hold on the code: \<open>r\<close> responses with status 429 followed by a good
  one give exactly \<open>r + 1\<close> attempts and the good result, as long as \<open>r\<close> is below the bound
  (\<open>query_chat_model_429_then_200\<close>); a 401 is raised after exactly one attempt
  (\<open>query_chat_model_401\<close>); when every attempt is rate limited the wrapper stops after
  the bounded number of attempts and raises the error of the last one
  (\<open>query_chat_model_exhausted\<close>); and any error the wrapper raises is the error of its
  last attempt, not a wrapper around it (\<open>query_chat_model_error_unwrapped\<close>).
\<close>

lemma query_chat_model_attempt_status_error:
  assumes "server w (posts w) = Inr response" and "raise_for_status response = Inl e"
  shows "query_chat_model_attempt loads payload w = (Inl e, w\<lparr>posts := posts w + 1\<rparr>)"
  using assms by (simp add: query_chat_model_attempt_def requests_post_def)

lemma raise_for_status_429:
  "status_code response = 429 \<Longrightarrow>
   raise_for_status response =
     Inl (OpenAIRateLimitError (''API rate limit exceeded: '' @ resp_text response))"
  by (simp add: raise_for_status_def)

lemma raise_for_status_401:
  "status_code response = 401 \<Longrightarrow>
   raise_for_status response =
     Inl (OpenAIUnauthorizedError (''API key is invalid: '' @ resp_text response))"
  by (simp add: raise_for_status_def)

text \<open>Attempts that fail with a retried error, then one that returns.\<close>

lemma retry_loop_failures_then_success:
  assumes "\<forall>i<r. \<exists>e. fn (ws i) = (Inl e, ws (Suc i)) \<and> openai_retry_condition e"
    and "fn (ws r) = (Inr v, w')"
    and "int a + int r \<le> m"
  shows "retry_loop m fn a (ws 0) = ((Inr v, a + r), w')"
  using assms
proof (induction r arbitrary: a ws)
  case 0
  then show ?case by (simp add: retry_loop_returns)
next
  case (Suc r)
  from Suc.prems(1) obtain e where e: "fn (ws 0) = (Inl e, ws (Suc 0))" "openai_retry_condition e"
    by auto
  have step: "retry_loop m fn a (ws 0) = retry_loop m fn (a + 1) (ws (Suc 0))"
    using e Suc.prems(3) by (intro retry_loop_again) auto
  have "retry_loop m fn (a + 1) ((\<lambda>i. ws (Suc i)) 0) = ((Inr v, (a + 1) + r), w')"
  proof (rule Suc.IH)
    show "\<forall>i<r. \<exists>e. fn (ws (Suc i)) = (Inl e, ws (Suc (Suc i))) \<and> openai_retry_condition e"
      using Suc.prems(1) by auto
    show "fn (ws (Suc r)) = (Inr v, w')" using Suc.prems(2) .
    show "int (a + 1) + int r \<le> m" using Suc.prems(3) by simp
  qed
  with step show ?case by simp
qed

text \<open>Whatever the wrapper raises is what its last attempt raised, and it stops in time.\<close>

lemma retry_loop_error_is_last_attempt:
  "retry_loop m fn a w = ((Inl e, n), w') \<Longrightarrow>
   (\<exists>w0. fn w0 = (Inl e, w')) \<and> a \<le> n \<and> (n = a \<or> int n \<le> m)"
proof (induction m fn a w rule: retry_loop.induct)
  case (1 m fn a w)
  obtain out w1 where f: "fn w = (out, w1)" by (cases "fn w")
  show ?case
  proof (cases out)
    case (Inr v)
    with f "1.prems" show ?thesis by (simp add: retry_loop_returns)
  next
    case (Inl e1)
    note f1 = f [unfolded Inl]
    show ?thesis
    proof (cases "openai_retry_condition e1 \<and> int a < m")
      case False
      then have "retry_loop m fn a w = ((Inl e1, a), w1)"
        using f1 by (auto simp: retry_loop_not_retried retry_loop_stopped)
      with "1.prems" f1 show ?thesis by auto
    next
      case True
      then have "retry_loop m fn a w = retry_loop m fn (a + 1) w1"
        using f1 by (simp add: retry_loop_again)
      with "1.prems" have r: "retry_loop m fn (a + 1) w1 = ((Inl e, n), w')" by simp
      have "(\<exists>w0. fn w0 = (Inl e, w')) \<and> a + 1 \<le> n \<and> (n = a + 1 \<or> int n \<le> m)"
        by (rule "1.IH") (use f1 True r in auto)
      with True show ?thesis by auto
    qed
  qed
qed

lemma retry_loop_all_fail:
  assumes "\<forall>i. fn (ws i) = (Inl (es i), ws (Suc i)) \<and> openai_retry_condition (es i)"
    and "int a \<le> m"
  shows "retry_loop m fn a (ws i) =
           ((Inl (es (i + (nat m - a))), nat m), ws (Suc (i + (nat m - a))))"
  using assms(2)
proof (induction "nat m - a" arbitrary: a i)
  case 0
  then have am: "a = nat m" "m \<le> int a" by auto
  have "retry_loop m fn a (ws i) = ((Inl (es i), a), ws (Suc i))"
    using assms(1) am(2) by (intro retry_loop_stopped) auto
  with am show ?case by simp
next
  case (Suc k)
  then have lt: "int a < m" and k: "k = nat m - (a + 1)" by auto
  have "retry_loop m fn a (ws i) = retry_loop m fn (a + 1) (ws (Suc i))"
    using assms(1) lt by (intro retry_loop_again) auto
  also have "\<dots> = ((Inl (es (Suc i + (nat m - (a + 1)))), nat m),
                   ws (Suc (Suc i + (nat m - (a + 1)))))"
    using lt by (intro Suc.hyps(1) k) auto
  also have "Suc i + (nat m - (a + 1)) = i + (nat m - a)"
    using lt by auto
  finally show ?case .
qed

lemma query_chat_model_429_then_200:
  assumes "\<forall>i<r. \<exists>resp. server w (posts w + i) = Inr resp \<and> status_code resp = 429"
    and "int r < max_retries"
    and "server w (posts w + r) = Inr response"
    and "status_code response < 400"
    and "loads (resp_text response) = Some json_response"
    and "subscript_key json_response ''choices'' = Inr (JArr cs)"
    and "map message_content cs = map (\<lambda>s. Inr (JStr s)) contents"
    and "map (\<lambda>c. subscript_key c ''finish_reason'') cs = map Inr frs"
    and "map_of payload ''n'' = Some n"
  shows "fst (query_chat_model max_retries loads payload w) = (Inr (map py_strip contents), r + 1) \<and>
         posts (snd (query_chat_model max_retries loads payload w)) = posts w + (r + 1)"
proof -
  let ?ws = "\<lambda>i. w\<lparr>posts := posts w + i\<rparr>"
  let ?fn = "query_chat_model_attempt loads payload :: 'a world \<Rightarrow> _"
  have fails: "\<forall>i<r. \<exists>e. ?fn (?ws i) = (Inl e, ?ws (Suc i)) \<and> openai_retry_condition e"
  proof (intro allI impI)
    fix i assume "i < r"
    with assms(1) obtain resp where resp: "server w (posts w + i) = Inr resp" "status_code resp = 429"
      by blast
    have "?fn (?ws i) =
            (Inl (OpenAIRateLimitError (''API rate limit exceeded: '' @ resp_text resp)),
             (?ws i)\<lparr>posts := posts (?ws i) + 1\<rparr>)"
      using resp by (intro query_chat_model_attempt_status_error [where response = resp]
          raise_for_status_429) auto
    then show "\<exists>e. ?fn (?ws i) = (Inl e, ?ws (Suc i)) \<and> openai_retry_condition e"
      by (simp add: openai_retry_condition_iff)
  qed
  have ok: "?fn (?ws r) =
           (Inr (map py_strip contents),
            (?ws r)\<lparr>posts := posts (?ws r) + 1,
              logged := logged (?ws r) @
                (if length (filter (\<lambda>fr. fr = JStr ''length'') frs) > 0
                 then [Truncated (length (filter (\<lambda>fr. fr = JStr ''length'') frs)) n] else []) @
                (if length (filter (\<lambda>fr. fr = JStr ''content_filter'') frs) > 0
                 then [Filtered (length (filter (\<lambda>fr. fr = JStr ''content_filter'') frs)) n] else [])\<rparr>)"
    by (rule query_chat_model_attempt_ok
        [where response = response and json_response = json_response and cs = cs and frs = frs])
      (use assms in simp_all)
  have "retry_loop max_retries ?fn 1 (?ws 0) =
          ((Inr (map py_strip contents), 1 + r),
            (?ws r)\<lparr>posts := posts (?ws r) + 1,
              logged := logged (?ws r) @
                (if length (filter (\<lambda>fr. fr = JStr ''length'') frs) > 0
                 then [Truncated (length (filter (\<lambda>fr. fr = JStr ''length'') frs)) n] else []) @
                (if length (filter (\<lambda>fr. fr = JStr ''content_filter'') frs) > 0
                 then [Filtered (length (filter (\<lambda>fr. fr = JStr ''content_filter'') frs)) n] else [])\<rparr>)"
    using fails ok assms(2) by (intro retry_loop_failures_then_success [where ws = ?ws]) auto
  then show ?thesis
    by (simp add: query_chat_model_def openai_retry_def)
qed

lemma query_chat_model_401:
  assumes "server w (posts w) = Inr response" and "status_code response = 401"
  shows "query_chat_model max_retries loads payload w =
           ((Inl (OpenAIUnauthorizedError (''API key is invalid: '' @ resp_text response)), 1),
            w\<lparr>posts := posts w + 1\<rparr>)"
  unfolding query_chat_model_def openai_retry_def
  using assms
  by (intro retry_loop_not_retried query_chat_model_attempt_status_error [where response = response]
      raise_for_status_401) (auto simp: openai_retry_condition_iff)

lemma query_chat_model_exhausted:
  assumes "\<forall>i. server w (posts w + i) = Inr (resps i) \<and> status_code (resps i) = 429"
    and "1 \<le> max_retries"
  shows "query_chat_model max_retries loads payload w =
           ((Inl (OpenAIRateLimitError
                    (''API rate limit exceeded: '' @ resp_text (resps (nat max_retries - 1)))),
             nat max_retries),
            w\<lparr>posts := posts w + nat max_retries\<rparr>)"
proof -
  let ?ws = "\<lambda>i. w\<lparr>posts := posts w + i\<rparr>"
  let ?es = "\<lambda>i. OpenAIRateLimitError (''API rate limit exceeded: '' @ resp_text (resps i))"
  let ?fn = "query_chat_model_attempt loads payload :: 'a world \<Rightarrow> _"
  have fails: "\<forall>i. ?fn (?ws i) = (Inl (?es i), ?ws (Suc i)) \<and> openai_retry_condition (?es i)"
  proof
    fix i
    have "?fn (?ws i) = (Inl (?es i), (?ws i)\<lparr>posts := posts (?ws i) + 1\<rparr>)"
      using assms(1)
      by (intro query_chat_model_attempt_status_error [where response = "resps i"]
          raise_for_status_429) auto
    then show "?fn (?ws i) = (Inl (?es i), ?ws (Suc i)) \<and> openai_retry_condition (?es i)"
      by (simp add: openai_retry_condition_iff)
  qed
  have "retry_loop max_retries ?fn 1 (?ws 0) =
          ((Inl (?es (0 + (nat max_retries - 1))), nat max_retries),
           ?ws (Suc (0 + (nat max_retries - 1))))"
    using assms(2) by (intro retry_loop_all_fail [where ws = ?ws and es = ?es] fails) auto
  moreover have "Suc (nat max_retries - 1) = nat max_retries"
    using assms(2) by auto
  ultimately show ?thesis
    by (simp add: query_chat_model_def openai_retry_def)
qed

lemma query_chat_model_error_unwrapped:
  "query_chat_model max_retries loads payload w = ((Inl e, n), w') \<Longrightarrow>
   (\<exists>w0. query_chat_model_attempt loads payload w0 = (Inl e, w')) \<and>
   1 \<le> n \<and> (n = 1 \<or> int n \<le> max_retries)"
  unfolding query_chat_model_def openai_retry_def
  by (rule retry_loop_error_is_last_attempt)

text \<open>
  C2. The claim says that only classified provider errors are retried. The decorator's
  condition is written with Python's \<open>and\<close>, so it is its second operand alone: every
  exception that is not an \<open>OpenAIUnauthorizedError\<close> is retried, classified or not.
  With the default bound of 5, a server that keeps answering status 200 with a body that is
  not JSON is queried 5 times before the \<open>JSONDecodeError\<close> reaches the caller, and so is
  a server whose every request times out; neither exception is an \<open>OpenAIError\<close>.
\<close>

theorem openai_retry_retries_unclassified_errors:
  "fst (query_chat_model OPENAI_MAX_RETRIES example_loads example_payload
          (example_world (\<lambda>i. Inr html_response))) = (Inl JSONDecodeError, 5) \<and>
   posts (snd (query_chat_model OPENAI_MAX_RETRIES example_loads example_payload
          (example_world (\<lambda>i. Inr html_response)))) = 5 \<and>
   fst (query_chat_model OPENAI_MAX_RETRIES example_loads example_payload
          (example_world (\<lambda>i. Inl (OtherException ''ReadTimeout'')))) =
     (Inl (OtherException ''ReadTimeout''), 5) \<and>
   \<not> retry_if_exception_type_OpenAIError JSONDecodeError \<and>
   \<not> retry_if_exception_type_OpenAIError (OtherException ''ReadTimeout'') \<and>
   openai_retry_condition JSONDecodeError \<and>
   openai_retry_condition (OtherException ''ReadTimeout'')"
  by (simp add: query_chat_model_def openai_retry_def retry_loop.simps OPENAI_MAX_RETRIES_def
        query_chat_model_attempt_def requests_post_def example_world_def html_response_def
        raise_for_status_def example_loads_def openai_retry_condition_iff
        retry_if_exception_type_OpenAIError_def)

section \<open>Properties of query\_chat\_model\_stream\<close>

lemma stream_events_frame:
  "case stream_events loads callback marker events tokens w of
     (outcome, w') \<Rightarrow>
       server w' = server w \<and> posts w' = posts w \<and> logged w' = logged w \<and>
       clients_opened w' = clients_opened w \<and> clients_closed w' = clients_closed w \<and>
       (\<exists>new. cb_calls w' = cb_calls w @ new \<and>
          (\<forall>tok ch e. (tok, ch, Inl e) \<in> set new \<longrightarrow> outcome = Inl e))"
proof (induction events arbitrary: tokens w)
  case Nil
  then show ?case by simp
next
  case (Cons ev events)
  show ?case
  proof (cases ev)
    case (Inl e)
    then show ?thesis by simp
  next
    case (Inr data)
    show ?thesis
    proof (cases "data = marker")
      case True
      with Inr show ?thesis by simp
    next
      case False
      show ?thesis
      proof (cases "event_token loads data")
        case (Inl e)
        with Inr False show ?thesis by simp
      next
        case ok: (Inr ct)
        obtain choices token where ct: "ct = (choices, token)" by (cases ct)
        show ?thesis
        proof (cases "truthy token")
          case nt: False
          have "stream_events loads callback marker (ev # events) tokens w =
                stream_events loads callback marker events tokens w"
            using Inr False ok ct nt by simp
          with Cons.IH [where tokens = tokens and w = w] show ?thesis by simp
        next
          case t: True
          obtain outcome c' where cb: "callback (cb_state w) token choices = (outcome, c')"
            by (cases "callback (cb_state w) token choices")
          let ?w' = "w\<lparr>cb_state := c', cb_calls := cb_calls w @ [(token, choices, outcome)]\<rparr>"
          show ?thesis
          proof (cases outcome)
            case e: (Inl e)
            have "stream_events loads callback marker (ev # events) tokens w = (Inl e, ?w')"
              using Inr False ok ct t cb e by (simp add: Let_def)
            then show ?thesis using e by simp
          next
            case r: (Inr returned)
            have eq: "stream_events loads callback marker (ev # events) tokens w =
                  stream_events loads callback marker events (tokens @ [returned]) ?w'"
              using Inr False ok ct t cb r by (simp add: Let_def)
            obtain out w2 where res:
              "stream_events loads callback marker events (tokens @ [returned]) ?w' = (out, w2)"
              by (cases "stream_events loads callback marker events (tokens @ [returned]) ?w'")
            from Cons.IH [where tokens = "tokens @ [returned]" and w = ?w'] res
            obtain new where new: "server w2 = server w" "posts w2 = posts w" "logged w2 = logged w"
              "clients_opened w2 = clients_opened w" "clients_closed w2 = clients_closed w"
              "cb_calls w2 = (cb_calls w @ [(token, choices, outcome)]) @ new"
              "\<forall>tok ch e. (tok, ch, Inl e) \<in> set new \<longrightarrow> out = Inl e"
              by auto
            have "cb_calls w2 = cb_calls w @ ((token, choices, outcome) # new)"
              using new(6) by simp
            moreover have "\<forall>tok ch e. (tok, ch, Inl e) \<in> set ((token, choices, outcome) # new)
                              \<longrightarrow> out = Inl e"
              using new(7) r by auto
            ultimately show ?thesis
              using eq res new(1-5) by (simp del: stream_events.simps)
          qed
        qed
      qed
    qed
  qed
qed

lemma stream_events_tokens:
  assumes "map (event_token loads) datas = map Inr parsed"
    and "marker \<notin> set datas"
    and "\<forall>c. \<forall>p\<in>set parsed. truthy (snd p) \<longrightarrow>
           (\<exists>r c'. callback c (snd p) (fst p) = (Inr r, c'))"
  shows "\<exists>returns.
           length returns = length (filter (\<lambda>p. truthy (snd p)) parsed) \<and>
           fst (stream_events loads callback marker (map Inr datas @ Inr marker # rest) tokens w) =
             Inr (tokens @ returns) \<and>
           cb_calls (snd (stream_events loads callback marker
                            (map Inr datas @ Inr marker # rest) tokens w)) =
             cb_calls w @
               map (\<lambda>(p, r). (snd p, fst p, Inr r))
                   (zip (filter (\<lambda>p. truthy (snd p)) parsed) returns)"
  using assms
proof (induction datas arbitrary: parsed tokens w)
  case Nil
  then show ?case by simp
next
  case (Cons data datas)
  from Cons.prems(1) obtain p ps where parsed: "parsed = p # ps"
    and p: "event_token loads data = Inr p"
    and ps: "map (event_token loads) datas = map Inr ps"
    by (cases parsed) auto
  obtain choices token where ct: "p = (choices, token)" by (cases p)
  have nm: "data \<noteq> marker" "marker \<notin> set datas" using Cons.prems(2) by auto
  have total: "\<forall>c. \<forall>p\<in>set ps. truthy (snd p) \<longrightarrow>
           (\<exists>r c'. callback c (snd p) (fst p) = (Inr r, c'))"
    using Cons.prems(3) parsed by simp
  let ?evs = "map Inr datas @ Inr marker # rest"
  show ?case
  proof (cases "truthy token")
    case False
    have eq: "stream_events loads callback marker (map Inr (data # datas) @ Inr marker # rest) tokens w =
          stream_events loads callback marker ?evs tokens w"
      using nm(1) p ct False by simp
    from Cons.IH [OF ps nm(2) total, where tokens = tokens and w = w] obtain returns where
      "length returns = length (filter (\<lambda>p. truthy (snd p)) ps)"
      "fst (stream_events loads callback marker ?evs tokens w) = Inr (tokens @ returns)"
      "cb_calls (snd (stream_events loads callback marker ?evs tokens w)) =
         cb_calls w @ map (\<lambda>(p, r). (snd p, fst p, Inr r))
                          (zip (filter (\<lambda>p. truthy (snd p)) ps) returns)"
      by blast
    then show ?thesis
      unfolding eq using parsed ct False by auto
  next
    case True
    from Cons.prems(3) parsed ct True
    obtain r c' where cb: "callback (cb_state w) token choices = (Inr r, c')"
      by fastforce
    let ?w' = "w\<lparr>cb_state := c', cb_calls := cb_calls w @ [(token, choices, Inr r)]\<rparr>"
    have eq: "stream_events loads callback marker (map Inr (data # datas) @ Inr marker # rest) tokens w =
          stream_events loads callback marker ?evs (tokens @ [r]) ?w'"
      using nm(1) p ct True cb by (simp add: Let_def)
    from Cons.IH [OF ps nm(2) total, where tokens = "tokens @ [r]" and w = ?w'] obtain returns where rs:
      "length returns = length (filter (\<lambda>p. truthy (snd p)) ps)"
      "fst (stream_events loads callback marker ?evs (tokens @ [r]) ?w') = Inr ((tokens @ [r]) @ returns)"
      "cb_calls (snd (stream_events loads callback marker ?evs (tokens @ [r]) ?w')) =
         cb_calls ?w' @ map (\<lambda>(p, r). (snd p, fst p, Inr r))
                          (zip (filter (\<lambda>p. truthy (snd p)) ps) returns)"
      by blast
    have "length (r # returns) = length (filter (\<lambda>p. truthy (snd p)) parsed)"
      using rs(1) parsed ct True by simp
    moreover have "fst (stream_events loads callback marker
                          (map Inr (data # datas) @ Inr marker # rest) tokens w) =
                   Inr (tokens @ (r # returns))"
      unfolding eq using rs(2) by simp
    moreover have "cb_calls (snd (stream_events loads callback marker
                            (map Inr (data # datas) @ Inr marker # rest) tokens w)) =
             cb_calls w @
               map (\<lambda>(p, r). (snd p, fst p, Inr r))
                   (zip (filter (\<lambda>p. truthy (snd p)) parsed) (r # returns))"
      unfolding eq using rs(3) parsed ct True by simp
    ultimately show ?thesis by blast
  qed
qed


lemma retry_loop_invariant:
  assumes "\<forall>w. I (snd (fn w)) = I w"
  shows "I (snd (retry_loop m fn a w)) = I w"
  using assms
proof (induction m fn a w rule: retry_loop.induct)
  case (1 m fn a w)
  obtain out w1 where f: "fn w = (out, w1)" by (cases "fn w")
  have "I (snd (fn w)) = I w" using "1.prems" by blast
  then have w1: "I w1 = I w" using f by simp
  show ?case
  proof (cases out)
    case (Inr v)
    with f w1 show ?thesis by (simp add: retry_loop_returns)
  next
    case (Inl e)
    note f1 = f [unfolded Inl]
    show ?thesis
    proof (cases "openai_retry_condition e \<and> int a < m")
      case False
      then have "retry_loop m fn a w = ((Inl e, a), w1)"
        using f1 by (auto simp: retry_loop_not_retried retry_loop_stopped)
      with w1 show ?thesis by simp
    next
      case True
      then have "retry_loop m fn a w = retry_loop m fn (a + 1) w1"
        using f1 by (simp add: retry_loop_again)
      moreover have "I (snd (retry_loop m fn (a + 1) w1)) = I w1"
        by (rule "1.IH") (use f1 True "1.prems" in auto)
      ultimately show ?thesis using w1 by simp
    qed
  qed
qed

lemma stream_attempt_balance:
  "int (clients_opened (snd (query_chat_model_stream_attempt loads callback marker w))) -
   int (clients_closed (snd (query_chat_model_stream_attempt loads callback marker w))) =
   int (clients_opened w) - int (clients_closed w)"
proof (cases "server w (posts w)")
  case (Inl e)
  then show ?thesis
    by (simp add: query_chat_model_stream_attempt_def requests_post_def)
next
  case (Inr response)
  show ?thesis
  proof (cases "raise_for_status response")
    case (Inl e)
    with Inr show ?thesis
      by (simp add: query_chat_model_stream_attempt_def requests_post_def)
  next
    case ok: (Inr u)
    let ?w2 = "w\<lparr>posts := posts w + 1, clients_opened := clients_opened w + 1\<rparr>"
    obtain out w3 where res:
      "stream_events loads callback marker (sse_events response) [] ?w2 = (out, w3)"
      by (cases "stream_events loads callback marker (sse_events response) [] ?w2")
    from stream_events_frame [where loads = loads and callback = callback and marker = marker
         and events = "sse_events response" and tokens = "[]" and w = ?w2] res
    have "clients_opened w3 = clients_opened w + 1" "clients_closed w3 = clients_closed w"
      by auto
    with Inr ok res show ?thesis
      by (cases out) (simp_all add: query_chat_model_stream_attempt_def requests_post_def Let_def)
  qed
qed

lemma stream_attempt_created:
  assumes "server w (posts w) = Inr response" and "status_code response < 400"
  shows "case query_chat_model_stream_attempt loads callback marker w of
           (outcome, w') \<Rightarrow>
             clients_opened w' = clients_opened w + 1 \<and>
             clients_closed w' = clients_closed w + 1 \<and>
             (\<exists>new. cb_calls w' = cb_calls w @ new \<and>
                (\<forall>tok ch e. (tok, ch, Inl e) \<in> set new \<longrightarrow> outcome = Inl e))"
proof -
  have ok: "raise_for_status response = Inr ()"
    using assms(2) by (simp add: raise_for_status_def)
  let ?w2 = "w\<lparr>posts := posts w + 1, clients_opened := clients_opened w + 1\<rparr>"
  obtain out w3 where res:
    "stream_events loads callback marker (sse_events response) [] ?w2 = (out, w3)"
    by (cases "stream_events loads callback marker (sse_events response) [] ?w2")
  from stream_events_frame [where loads = loads and callback = callback and marker = marker
         and events = "sse_events response" and tokens = "[]" and w = ?w2] res
  obtain new where new: "clients_opened w3 = clients_opened w + 1"
    "clients_closed w3 = clients_closed w" "cb_calls w3 = cb_calls w @ new"
    "\<forall>tok ch e. (tok, ch, Inl e) \<in> set new \<longrightarrow> out = Inl e"
    by auto
  show ?thesis
  proof (cases out)
    case (Inl e)
    with assms(1) ok res new show ?thesis
      by (simp add: query_chat_model_stream_attempt_def requests_post_def Let_def)
  next
    case (Inr tokens)
    with assms(1) ok res new show ?thesis
      by (auto simp add: query_chat_model_stream_attempt_def requests_post_def Let_def)
  qed
qed


text \<open>
  C4. The response is below status 400 and its events are some events other than the
  marker, each of which decodes and yields a token (\<open>event_token\<close>), then the marker,
  then anything; the callback does not raise on the tokens it is given. Then the callback
  is invoked exactly once for each event whose token is truthy, in arrival order, with that
  token and the event's \<open>choices\<close>, and the function returns after one attempt the
  single-element list with the concatenation of what the callback returned. The token of
  a delta without \<open>"content"\<close> is \<open>None\<close>, which is not truthy, and a string token is
  truthy exactly when it is not empty: such events do not reach the callback.
\<close>

theorem stream_callback_once_per_token:
  assumes "server w (posts w) = Inr response"
    and "status_code response < 400"
    and "sse_events response = map Inr datas @ Inr marker # rest"
    and "marker \<notin> set datas"
    and "map (event_token loads) datas = map Inr parsed"
    and "\<forall>c. \<forall>p\<in>set parsed. truthy (snd p) \<longrightarrow>
           (\<exists>r c'. callback c (snd p) (fst p) = (Inr r, c'))"
  shows "(\<exists>returns.
            length returns = length (filter (\<lambda>p. truthy (snd p)) parsed) \<and>
            fst (query_chat_model_stream max_retries loads callback marker w) =
              (Inr [concat returns], 1) \<and>
            cb_calls (snd (query_chat_model_stream max_retries loads callback marker w)) =
              cb_calls w @
                map (\<lambda>(p, r). (snd p, fst p, Inr r))
                    (zip (filter (\<lambda>p. truthy (snd p)) parsed) returns)) \<and>
         (\<forall>kvs. delta_token (JObj kvs) =
            (case map_of kvs ''content'' of None \<Rightarrow> Inr JNull | Some v \<Rightarrow> Inr v)) \<and>
         \<not> truthy JNull \<and> (\<forall>s. truthy (JStr s) \<longleftrightarrow> s \<noteq> [])"
proof -
  have ok: "raise_for_status response = Inr ()"
    using assms(2) by (simp add: raise_for_status_def)
  let ?w2 = "w\<lparr>posts := posts w + 1, clients_opened := clients_opened w + 1\<rparr>"
  let ?run = "stream_events loads callback marker (map Inr datas @ Inr marker # rest) [] ?w2"
  from stream_events_tokens [OF assms(5) assms(4) assms(6), where rest = rest and tokens = "[]" and w = ?w2]
  obtain returns where rs:
    "length returns = length (filter (\<lambda>p. truthy (snd p)) parsed)"
    "fst ?run = Inr ([] @ returns)"
    "cb_calls (snd ?run) =
       cb_calls ?w2 @ map (\<lambda>(p, r). (snd p, fst p, Inr r))
                          (zip (filter (\<lambda>p. truthy (snd p)) parsed) returns)"
    by blast
  obtain out w3 where res: "?run = (out, w3)" by (cases ?run)
  have att: "query_chat_model_stream_attempt loads callback marker w =
               (Inr [concat returns], w3\<lparr>clients_closed := clients_closed w3 + 1\<rparr>)"
    using assms(1,3) ok res rs(2)
    by (simp add: query_chat_model_stream_attempt_def requests_post_def Let_def)
  have "query_chat_model_stream max_retries loads callback marker w =
          ((Inr [concat returns], 1), w3\<lparr>clients_closed := clients_closed w3 + 1\<rparr>)"
    unfolding query_chat_model_stream_def openai_retry_def
    using att by (rule retry_loop_returns)
  then have "fst (query_chat_model_stream max_retries loads callback marker w) =
              (Inr [concat returns], 1)"
    and "cb_calls (snd (query_chat_model_stream max_retries loads callback marker w)) =
              cb_calls w @
                map (\<lambda>(p, r). (snd p, fst p, Inr r))
                    (zip (filter (\<lambda>p. truthy (snd p)) parsed) returns)"
    using rs(3) res by simp_all
  with rs(1) have first: "\<exists>returns.
            length returns = length (filter (\<lambda>p. truthy (snd p)) parsed) \<and>
            fst (query_chat_model_stream max_retries loads callback marker w) =
              (Inr [concat returns], 1) \<and>
            cb_calls (snd (query_chat_model_stream max_retries loads callback marker w)) =
              cb_calls w @
                map (\<lambda>(p, r). (snd p, fst p, Inr r))
                    (zip (filter (\<lambda>p. truthy (snd p)) parsed) returns)"
    by blast
  have delta: "\<forall>kvs. delta_token (JObj kvs) =
            (case map_of kvs ''content'' of None \<Rightarrow> Inr JNull | Some v \<Rightarrow> Inr v)"
    by (auto simp: delta_token_def split: option.splits)
  show ?thesis using first delta by simp
qed

theorem stream_callback_once_per_token_witness:
  "server (stream_world []) (posts (stream_world [])) = Inr stream_response \<and>
   status_code stream_response < 400 \<and>
   sse_events stream_response =
     map Inr [''{role}'', ''{Hello}'', ''{}'', ''{ world}''] @ Inr ''[DONE]'' # [Inr ''{Hello}''] \<and>
   ''[DONE]'' \<notin> set [''{role}'', ''{Hello}'', ''{}'', ''{ world}''] \<and>
   fst (query_chat_model_stream 5 stream_loads test_callback ''[DONE]'' (stream_world [])) =
     (Inr [''Hello world''], 1) \<and>
   map (\<lambda>c. (fst c, snd (snd c)))
       (cb_calls (snd (query_chat_model_stream 5 stream_loads test_callback ''[DONE]''
                         (stream_world [])))) =
     [(JStr ''Hello'', Inr ''Hello''), (JStr '' world'', Inr '' world'')] \<and>
   cb_state (snd (query_chat_model_stream 5 stream_loads test_callback ''[DONE]''
                    (stream_world []))) = ''Hello world''"
  using stream_callback_once_per_token
    [where w = "stream_world []" and response = stream_response and marker = "''[DONE]''"
       and datas = "[''{role}'', ''{Hello}'', ''{}'', ''{ world}'']" and rest = "[Inr ''{Hello}'']"
       and loads = stream_loads and callback = test_callback and max_retries = 5
       and parsed = "[(JArr [JObj [(''index'', JNum 0), (''delta'', JObj [(''role'', JStr ''assistant'')])]], JNull),
                      (JArr [JObj [(''index'', JNum 0), (''delta'', JObj [(''content'', JStr ''Hello'')])]], JStr ''Hello''),
                      (JArr [JObj [(''index'', JNum 0), (''delta'', JObj [(''content'', JStr [])])]], JStr []),
                      (JArr [JObj [(''index'', JNum 0), (''delta'', JObj [(''content'', JStr '' world'')])]], JStr '' world'')]"]
  by (simp add: stream_world_def stream_response_def stream_loads_def delta_event_def
        test_callback_def event_token_def delta_token_def query_chat_model_stream_def
        openai_retry_def retry_loop.simps query_chat_model_stream_attempt_def requests_post_def
        raise_for_status_def Let_def)

text \<open>
  What holds of the closing. Once the response has passed \<open>raise_for_status\<close>, one run of the function body
  creates one client and closes it exactly once, however the loop ends; and if the
  callback raised during that run, the run ends with exactly that exception. Through the
  retry decorator every client that was created has been closed when the function
  returns or raises, and an exception that it raises is the one its last run raised.
\<close>

lemma stream_client_closed_once:
  "(server w (posts w) = Inr response \<and> status_code response < 400 \<longrightarrow>
      (case query_chat_model_stream_attempt loads callback marker w of
         (outcome, w') \<Rightarrow>
           clients_opened w' = clients_opened w + 1 \<and>
           clients_closed w' = clients_closed w + 1 \<and>
           (\<exists>new. cb_calls w' = cb_calls w @ new \<and>
              (\<forall>tok ch e. (tok, ch, Inl e) \<in> set new \<longrightarrow> outcome = Inl e)))) \<and>
   int (clients_opened (snd (query_chat_model_stream max_retries loads callback marker w))) -
   int (clients_closed (snd (query_chat_model_stream max_retries loads callback marker w))) =
     int (clients_opened w) - int (clients_closed w) \<and>
   (\<forall>e n w'. query_chat_model_stream max_retries loads callback marker w = ((Inl e, n), w') \<longrightarrow>
      (\<exists>w0. query_chat_model_stream_attempt loads callback marker w0 = (Inl e, w')))"
proof -
  have "int (clients_opened (snd (query_chat_model_stream max_retries loads callback marker w))) -
        int (clients_closed (snd (query_chat_model_stream max_retries loads callback marker w))) =
        int (clients_opened w) - int (clients_closed w)"
    unfolding query_chat_model_stream_def openai_retry_def
    by (rule retry_loop_invariant
          [where I = "\<lambda>w. int (clients_opened w) - int (clients_closed w)"])
       (simp add: stream_attempt_balance)
  moreover have "server w (posts w) = Inr response \<and> status_code response < 400 \<longrightarrow>
      (case query_chat_model_stream_attempt loads callback marker w of
         (outcome, w') \<Rightarrow>
           clients_opened w' = clients_opened w + 1 \<and>
           clients_closed w' = clients_closed w + 1 \<and>
           (\<exists>new. cb_calls w' = cb_calls w @ new \<and>
              (\<forall>tok ch e. (tok, ch, Inl e) \<in> set new \<longrightarrow> outcome = Inl e)))"
  proof (intro impI, elim conjE)
    assume "server w (posts w) = Inr response" and "status_code response < 400"
    then show "case query_chat_model_stream_attempt loads callback marker w of
         (outcome, w') \<Rightarrow>
           clients_opened w' = clients_opened w + 1 \<and>
           clients_closed w' = clients_closed w + 1 \<and>
           (\<exists>new. cb_calls w' = cb_calls w @ new \<and>
              (\<forall>tok ch e. (tok, ch, Inl e) \<in> set new \<longrightarrow> outcome = Inl e))"
      by (rule stream_attempt_created)
  qed
  moreover have "\<forall>e n w'.
      query_chat_model_stream max_retries loads callback marker w = ((Inl e, n), w') \<longrightarrow>
      (\<exists>w0. query_chat_model_stream_attempt loads callback marker w0 = (Inl e, w'))"
    unfolding query_chat_model_stream_def openai_retry_def
    by (blast dest: retry_loop_error_is_last_attempt)
  ultimately show ?thesis by (intro conjI)
qed

lemma stream_client_closed_once_example:
  "server (stream_world ()) (posts (stream_world ())) = Inr stream_response \<and>
   status_code stream_response < 400 \<and>
   fst (query_chat_model_stream_attempt stream_loads raising_callback ''[DONE]'' (stream_world ())) =
     Inl (OtherException ''callback failed'') \<and>
   clients_opened (snd (query_chat_model_stream_attempt stream_loads raising_callback ''[DONE]''
                          (stream_world ()))) = 1 \<and>
   clients_closed (snd (query_chat_model_stream_attempt stream_loads raising_callback ''[DONE]''
                          (stream_world ()))) = 1 \<and>
   map (\<lambda>c. (fst c, snd (snd c)))
       (cb_calls (snd (query_chat_model_stream_attempt stream_loads raising_callback ''[DONE]''
                         (stream_world ())))) =
     [(JStr ''Hello'', Inl (OtherException ''callback failed''))]"
  using stream_client_closed_once
    [where w = "stream_world ()" and response = stream_response and loads = stream_loads
       and callback = raising_callback and marker = "''[DONE]''" and max_retries = 5]
  by (simp add: stream_world_def stream_response_def stream_loads_def delta_event_def
        raising_callback_def event_token_def delta_token_def
        query_chat_model_stream_attempt_def requests_post_def
        raise_for_status_def Let_def)

text \<open>
  C5. The claim says that an exception raised by the callback still propagates to the
  caller. The client is closed once in every run, but the retry decorator takes the
  callback's exception for a reason to run the whole function again (its condition retries
  every exception that is not an \<open>OpenAIUnauthorizedError\<close>, see C2). With the callback
  that fails once, the caller gets a normal result after two requests and never sees the
  exception; with the callback that always fails, five requests are sent before the
  exception reaches the caller.
\<close>

theorem stream_callback_exception_retried:
  "fst (query_chat_model_stream OPENAI_MAX_RETRIES stream_loads raise_once_callback ''[DONE]''
          (stream_world False)) = (Inr [''Hello world''], 2) \<and>
   map (\<lambda>c. (fst c, snd (snd c)))
       (cb_calls (snd (query_chat_model_stream OPENAI_MAX_RETRIES stream_loads raise_once_callback
                         ''[DONE]'' (stream_world False)))) =
     [(JStr ''Hello'', Inl (OtherException ''callback failed'')),
      (JStr ''Hello'', Inr ''Hello''), (JStr '' world'', Inr '' world'')] \<and>
   posts (snd (query_chat_model_stream OPENAI_MAX_RETRIES stream_loads raise_once_callback
                 ''[DONE]'' (stream_world False))) = 2 \<and>
   clients_opened (snd (query_chat_model_stream OPENAI_MAX_RETRIES stream_loads raise_once_callback
                          ''[DONE]'' (stream_world False))) = 2 \<and>
   clients_closed (snd (query_chat_model_stream OPENAI_MAX_RETRIES stream_loads raise_once_callback
                          ''[DONE]'' (stream_world False))) = 2 \<and>
   fst (query_chat_model_stream OPENAI_MAX_RETRIES stream_loads raising_callback ''[DONE]''
          (stream_world ())) = (Inl (OtherException ''callback failed''), 5) \<and>
   posts (snd (query_chat_model_stream OPENAI_MAX_RETRIES stream_loads raising_callback ''[DONE]''
                 (stream_world ()))) = 5 \<and>
   \<not> retry_if_exception_type_OpenAIError (OtherException ''callback failed'')"
  by (simp add: stream_world_def stream_response_def stream_loads_def delta_event_def
        raise_once_callback_def raising_callback_def event_token_def delta_token_def
        query_chat_model_stream_def openai_retry_def retry_loop.simps OPENAI_MAX_RETRIES_def
        query_chat_model_stream_attempt_def requests_post_def raise_for_status_def Let_def
        openai_retry_condition_iff retry_if_exception_type_OpenAIError_def)

end
